theory Spec2Isabelle
  imports Complex_Main "HOL-Library.Sublist"
begin

section \<open>Text primitives used by the detector, the diagnostic and the healing engine\<close>

text \<open>
  File contents are Python \<open>str\<close> values; they are modelled as \<open>string\<close>, one \<open>char\<close>
  per code point, so the model covers texts whose code points are below 256.
\<close>

fun startswith :: "string \<Rightarrow> string \<Rightarrow> bool" where
  "startswith s [] = True"
| "startswith [] (p # ps) = False"
| "startswith (c # cs) (p # ps) = (if c = p then startswith cs ps else False)"

definition endswith :: "string \<Rightarrow> string \<Rightarrow> bool" where
  "endswith s p = (length p \<le> length s \<and> drop (length s - length p) s = p)"

text \<open>Python's \<open>sub in s\<close> on strings.\<close>

fun contains :: "string \<Rightarrow> string \<Rightarrow> bool" where
  "contains sub [] = (sub = [])"
| "contains sub (c # cs) = (startswith (c # cs) sub \<or> contains sub cs)"

text \<open>\<open>s.split('\n')\<close> and \<open>'\n'.join(lines)\<close>.\<close>

definition newline :: char where
  "newline = CHR 0x0A"

fun split_lines :: "string \<Rightarrow> string list" where
  "split_lines [] = [[]]"
| "split_lines (c # cs) =
     (if c = newline then [] # split_lines cs
      else (case split_lines cs of l # ls \<Rightarrow> (c # l) # ls | [] \<Rightarrow> [[c]]))"

fun join_lines :: "string list \<Rightarrow> string" where
  "join_lines [] = []"
| "join_lines [l] = l"
| "join_lines (l # ls) = l @ newline # join_lines ls"

text \<open>\<open>s.count('\n')\<close>.\<close>

definition count_newlines :: "string \<Rightarrow> nat" where
  "count_newlines s = length (filter (\<lambda>c. c = newline) s)"

subsection \<open>Character classes of Python's \<open>re\<close> on code points below 256\<close>

definition is_space :: "char \<Rightarrow> bool" where
  "is_space c = (c \<in> set [CHR 0x09, CHR 0x0A, CHR 0x0B, CHR 0x0C, CHR 0x0D, CHR 0x1C, CHR 0x1D,
                           CHR 0x1E, CHR 0x1F, CHR 0x20, CHR 0x85, CHR 0xA0])"

definition upper_case :: string where
  "upper_case = ''ABCDEFGHIJKLMNOPQRSTUVWXYZ''"

definition lower_case :: string where
  "lower_case = ''abcdefghijklmnopqrstuvwxyz''"

text \<open>The characters from 128 to 255 that \<open>\w\<close> matches.\<close>

definition latin1_word :: string where
  "latin1_word =
     [CHR 0xAA, CHR 0xB2, CHR 0xB3, CHR 0xB5, CHR 0xB9, CHR 0xBA, CHR 0xBC, CHR 0xBD,
      CHR 0xBE, CHR 0xC0, CHR 0xC1, CHR 0xC2, CHR 0xC3, CHR 0xC4, CHR 0xC5, CHR 0xC6,
      CHR 0xC7, CHR 0xC8, CHR 0xC9, CHR 0xCA, CHR 0xCB, CHR 0xCC, CHR 0xCD, CHR 0xCE,
      CHR 0xCF, CHR 0xD0, CHR 0xD1, CHR 0xD2, CHR 0xD3, CHR 0xD4, CHR 0xD5, CHR 0xD6,
      CHR 0xD8, CHR 0xD9, CHR 0xDA, CHR 0xDB, CHR 0xDC, CHR 0xDD, CHR 0xDE, CHR 0xDF,
      CHR 0xE0, CHR 0xE1, CHR 0xE2, CHR 0xE3, CHR 0xE4, CHR 0xE5, CHR 0xE6, CHR 0xE7,
      CHR 0xE8, CHR 0xE9, CHR 0xEA, CHR 0xEB, CHR 0xEC, CHR 0xED, CHR 0xEE, CHR 0xEF,
      CHR 0xF0, CHR 0xF1, CHR 0xF2, CHR 0xF3, CHR 0xF4, CHR 0xF5, CHR 0xF6, CHR 0xF8,
      CHR 0xF9, CHR 0xFA, CHR 0xFB, CHR 0xFC, CHR 0xFD, CHR 0xFE, CHR 0xFF]"

definition is_word :: "char \<Rightarrow> bool" where
  "is_word c = (c \<in> set (''0123456789_'' @ lower_case @ upper_case @ latin1_word))"

text \<open>The class \<open>[^'"]\<close>.\<close>

definition not_quote :: "char \<Rightarrow> bool" where
  "not_quote c = (c \<noteq> CHR 0x27 \<and> c \<noteq> CHR 0x22)"

definition is_quote :: "char \<Rightarrow> bool" where
  "is_quote c = (c = CHR 0x27 \<or> c = CHR 0x22)"

text \<open>
  Under \<open>re.IGNORECASE\<close> a letter of a pattern matches itself and the same letter in the
  other case (for the ASCII letters of the patterns used here, on code points below 256).
  \<open>ignore_case\<close> pairs every character of a literal with its other case.
\<close>

definition other_case :: "char \<Rightarrow> char" where
  "other_case c =
     (case map_of (zip (upper_case @ lower_case) (lower_case @ upper_case)) c of
        Some d \<Rightarrow> d
      | None \<Rightarrow> c)"

definition ignore_case :: "string \<Rightarrow> (char \<times> char) list" where
  "ignore_case t = map (\<lambda>p. (p, other_case p)) t"

fun startswith_ci :: "string \<Rightarrow> (char \<times> char) list \<Rightarrow> bool" where
  "startswith_ci s [] = True"
| "startswith_ci [] (p # ps) = False"
| "startswith_ci (c # cs) (p # ps) =
     (if c = fst p \<or> c = snd p then startswith_ci cs ps else False)"

subsection \<open>The fragment of regular expressions that the source's patterns use\<close>

text \<open>
  Every pattern of the source that is modelled here is a sequence of: literal text, literal
  text under \<open>re.IGNORECASE\<close> (given by \<open>ignore_case\<close>), a greedy repetition of a character class with a minimum
  count (\<open>\s*\<close>, \<open>\s+\<close>, \<open>\w+\<close>, \<open>[^'"]+\<close>, \<open>[^'"]{10,}\<close>), one character of a class
  (\<open>['"]\<close>) and an optional literal (\<open>(?:name)?\<close>). The matcher backtracks as
  \<open>re\<close> does: a repetition first takes as many characters as it can and gives them back
  one at a time; an optional literal is first tried present, then absent. A match is the
  list of the texts matched by each element, and the rest of the input.
\<close>

datatype atom =
    Lit string
  | LitI "(char \<times> char) list"
  | Many "char \<Rightarrow> bool" nat
  | One "char \<Rightarrow> bool"
  | OptLit string

type_synonym rmatch_result = "(string list \<times> string) option"

fun greedy :: "(string \<Rightarrow> rmatch_result) \<Rightarrow> string \<Rightarrow> nat \<Rightarrow> nat \<Rightarrow> rmatch_result" where
  "greedy k s n 0 =
     (if 0 < n then None
      else (case k s of Some (ps, r) \<Rightarrow> Some ([] # ps, r) | None \<Rightarrow> None))"
| "greedy k s n (Suc m) =
     (if Suc m < n then None
      else (case k (drop (Suc m) s) of
              Some (ps, r) \<Rightarrow> Some (take (Suc m) s # ps, r)
            | None \<Rightarrow> greedy k s n m))"

fun step :: "atom \<Rightarrow> (string \<Rightarrow> rmatch_result) \<Rightarrow> string \<Rightarrow> rmatch_result" where
  "step (Lit t) k s =
     (if startswith s t
      then (case k (drop (length t) s) of Some (ps, r) \<Rightarrow> Some (t # ps, r) | None \<Rightarrow> None)
      else None)"
| "step (LitI t) k s =
     (if startswith_ci s t
      then (case k (drop (length t) s) of
              Some (ps, r) \<Rightarrow> Some (take (length t) s # ps, r) | None \<Rightarrow> None)
      else None)"
| "step (Many P n) k s = greedy k s n (length (takeWhile P s))"
| "step (One P) k s =
     (case s of [] \<Rightarrow> None
      | c # cs \<Rightarrow> if P c then (case k cs of Some (ps, r) \<Rightarrow> Some ([c] # ps, r) | None \<Rightarrow> None)
                  else None)"
| "step (OptLit t) k s =
     (case (if startswith s t then k (drop (length t) s) else None) of
        Some (ps, r) \<Rightarrow> Some (t # ps, r)
      | None \<Rightarrow> (case k s of Some (ps, r) \<Rightarrow> Some ([] # ps, r) | None \<Rightarrow> None))"

text \<open>\<open>re.match\<close>: the pattern matched at the start of the input.\<close>

primrec rmatch :: "atom list \<Rightarrow> string \<Rightarrow> rmatch_result" where
  "rmatch [] = (\<lambda>s. Some ([], s))"
| "rmatch (a # rx) = step a (rmatch rx)"

text \<open>
  What an element of a pattern stands for, said without the matcher: the texts that it
  can match.
\<close>

fun matches :: "atom \<Rightarrow> string \<Rightarrow> bool" where
  "matches (Lit t) p = (p = t)"
| "matches (LitI t) p = (length p = length t \<and> startswith_ci p t)"
| "matches (Many P n) p = (n \<le> length p \<and> list_all P p)"
| "matches (One P) p = (length p = 1 \<and> list_all P p)"
| "matches (OptLit t) p = (p = [] \<or> p = t)"

text \<open>\<open>re.search(...)\<close> used as a truth value: is there a match at some position.\<close>

fun rsearch :: "atom list \<Rightarrow> string \<Rightarrow> bool" where
  "rsearch rx [] = (rmatch rx [] \<noteq> None)"
| "rsearch rx (c # cs) = (rmatch rx (c # cs) \<noteq> None \<or> rsearch rx cs)"

text \<open>
  \<open>re.finditer\<close>: the non-overlapping matches from left to right, each with its start
  offset. \<open>skip\<close> counts the characters of the previous match still to pass over. The
  patterns used here never match the empty string.
\<close>

fun finditer_from :: "atom list \<Rightarrow> nat \<Rightarrow> nat \<Rightarrow> string \<Rightarrow> (nat \<times> string list) list" where
  "finditer_from rx pos skip [] = []"
| "finditer_from rx pos skip (c # cs) =
     (if 0 < skip then finditer_from rx (Suc pos) (skip - 1) cs
      else (case rmatch rx (c # cs) of
              Some (ps, r) \<Rightarrow> (pos, ps) # finditer_from rx (Suc pos) (length (concat ps) - 1) cs
            | None \<Rightarrow> finditer_from rx (Suc pos) 0 cs))"

definition finditer :: "atom list \<Rightarrow> string \<Rightarrow> (nat \<times> string list) list" where
  "finditer rx s = finditer_from rx 0 0 s"

text \<open>\<open>re.sub(pattern, repl, s)\<close> for a replacement text without group references.\<close>

fun sub_from :: "atom list \<Rightarrow> string \<Rightarrow> nat \<Rightarrow> string \<Rightarrow> string" where
  "sub_from rx repl skip [] = []"
| "sub_from rx repl skip (c # cs) =
     (if 0 < skip then sub_from rx repl (skip - 1) cs
      else (case rmatch rx (c # cs) of
              Some (ps, r) \<Rightarrow> repl @ sub_from rx repl (length (concat ps) - 1) cs
            | None \<Rightarrow> c # sub_from rx repl 0 cs))"

definition re_sub :: "atom list \<Rightarrow> string \<Rightarrow> string \<Rightarrow> string" where
  "re_sub rx repl s = sub_from rx repl 0 s"


section \<open>Data model\<close>

text \<open>A path is the list of its components (\<open>pathlib.Path.parts\<close> without the root).\<close>

type_synonym path = "string list"

text \<open>The project files: the content of every readable file, by path.\<close>

type_synonym files = "path \<rightharpoonup> string"

text \<open>A route as \<open>get_routes\<close> returns it.\<close>

record route =
  r_file :: path
  r_app_or_blueprint :: string
  r_path :: string
  r_methods :: "string option"
  r_function :: "string option"

text \<open>A template as \<open>get_templates\<close> returns it.\<close>

record template =
  t_path :: path
  t_relative_path :: string
  t_name :: string

text \<open>
  The issue dictionaries of the diagnostic engine, one constructor for each dictionary
  literal of \<open>diagnostic.py\<close>, carrying its variable entries; the entries \<open>type\<close> and
  \<open>severity\<close> are constants of each literal.
\<close>

datatype issue =
    MissingReturn path string nat
  | DuplicateRoute path string "string option"
  | UnspecifiedMethods path string "string option"
  | MissingTemplate string "path list"
  | UnclosedBlock string string
  | InvalidUrlFor string string
  | UnusedTemplate string
  | NoDatabase
  | EmptyModel path string
  | UserModelWithoutPassword path string
  | UnusedImport path string nat
  | UnusedVariable path string nat
  | HardcodedSecret path nat string
  | InsecureConfig path string
  | NPlus1Query path nat
  | MissingEagerLoading path

fun issue_type :: "issue \<Rightarrow> string" where
  "issue_type (MissingReturn f n l) = ''missing_return''"
| "issue_type (DuplicateRoute f p n) = ''duplicate_route''"
| "issue_type (UnspecifiedMethods f p n) = ''unspecified_methods''"
| "issue_type (MissingTemplate t rs) = ''missing_template''"
| "issue_type (UnclosedBlock t b) = ''unclosed_block''"
| "issue_type (InvalidUrlFor t e) = ''invalid_url_for''"
| "issue_type (UnusedTemplate t) = ''unused_template''"
| "issue_type NoDatabase = ''no_database''"
| "issue_type (EmptyModel f m) = ''empty_model''"
| "issue_type (UserModelWithoutPassword f m) = ''user_model_without_password''"
| "issue_type (UnusedImport f i l) = ''unused_import''"
| "issue_type (UnusedVariable f v l) = ''unused_variable''"
| "issue_type (HardcodedSecret f l d) = ''hardcoded_secret''"
| "issue_type (InsecureConfig f d) = ''insecure_config''"
| "issue_type (NPlus1Query f l) = ''n_plus_1_query''"
| "issue_type (MissingEagerLoading f) = ''missing_eager_loading''"

fun severity :: "issue \<Rightarrow> string" where
  "severity (MissingReturn f n l) = ''high''"
| "severity (DuplicateRoute f p n) = ''high''"
| "severity (UnspecifiedMethods f p n) = ''medium''"
| "severity (MissingTemplate t rs) = ''high''"
| "severity (UnclosedBlock t b) = ''high''"
| "severity (InvalidUrlFor t e) = ''high''"
| "severity (UnusedTemplate t) = ''low''"
| "severity NoDatabase = ''medium''"
| "severity (EmptyModel f m) = ''medium''"
| "severity (UserModelWithoutPassword f m) = ''medium''"
| "severity (UnusedImport f i l) = ''low''"
| "severity (UnusedVariable f v l) = ''low''"
| "severity (HardcodedSecret f l d) = ''high''"
| "severity (InsecureConfig f d) = ''medium''"
| "severity (NPlus1Query f l) = ''medium''"
| "severity (MissingEagerLoading f) = ''low''"

subsection \<open>Syntax trees\<close>

text \<open>
  \<open>ast.parse\<close> belongs to the Python library, not to the program: the parser is a parameter
  \<open>parse\<close> of the functions that call it, \<open>None\<close> when it raises \<open>SyntaxError\<close>. Its trees
  are modelled with the node kinds and the fields that the program inspects; every other
  kind of node is \<open>Node\<close> with its children. \<open>children\<close> lists the child nodes in the
  order of \<open>ast.iter_child_nodes\<close>, and \<open>walk\<close> is \<open>ast.walk\<close>: breadth first, from a queue.
\<close>

datatype pynode =
    FunctionDef string nat nat pynode "pynode list" "pynode list"
  | ClassDef string nat nat "pynode list" "pynode list"
  | Assign nat "pynode list" pynode
  | Call pynode "pynode list"
  | Attribute pynode string
  | Name string
  | Return "pynode list"
  | Node "pynode list"

fun children :: "pynode \<Rightarrow> pynode list" where
  "children (FunctionDef name lineno end_lineno args body decorator_list) =
     args # body @ decorator_list"
| "children (ClassDef name lineno end_lineno bases body) = bases @ body"
| "children (Assign lineno targets v) = targets @ [v]"
| "children (Call func args) = func # args"
| "children (Attribute v attr) = [v]"
| "children (Name ident) = []"
| "children (Return v) = v"
| "children (Node cs) = cs"

lemma size_list_sum: "size_list size xs = sum_list (map (\<lambda>c. Suc (size c)) xs)"
  by (induction xs) auto

lemma size_children: "sum_list (map (\<lambda>c. Suc (size c)) (children n)) \<le> size n"
  by (cases n) (simp_all add: size_list_sum)

function walk_queue :: "pynode list \<Rightarrow> pynode list" where
  "walk_queue [] = []"
| "walk_queue (n # todo) = n # walk_queue (todo @ children n)"
  by pat_completeness auto
termination
proof (relation "measure (\<lambda>q. sum_list (map (\<lambda>c. Suc (size c)) q))")
  show "wf (measure (\<lambda>q. sum_list (map (\<lambda>c. Suc (size c)) q)))" by simp
next
  fix n :: pynode and todo :: "pynode list"
  show "(todo @ children n, n # todo) \<in> measure (\<lambda>q. sum_list (map (\<lambda>c. Suc (size c)) q))"
    using size_children [of n] by simp
qed

definition walk :: "pynode \<Rightarrow> pynode list" where
  "walk n = walk_queue [n]"


section \<open>The diagnostic engine\<close>

subsection \<open>Routes\<close>

text \<open>A decorator of the shape \<open>@x.route(...)\<close>: a call of an attribute named \<open>route\<close>.\<close>

fun is_route_decorator :: "pynode \<Rightarrow> bool" where
  "is_route_decorator (Call (Attribute v attr) args) = (attr = ''route'')"
| "is_route_decorator n = False"

fun is_return :: "pynode \<Rightarrow> bool" where
  "is_return (Return v) = True"
| "is_return n = False"

text \<open>The body of the loop over \<open>ast.walk(tree)\<close>: what one node adds to the issues.\<close>

fun missing_return_of :: "path \<Rightarrow> pynode \<Rightarrow> issue list" where
  "missing_return_of route_file (FunctionDef name lineno end_lineno args body decorator_list) =
     (if list_ex is_route_decorator decorator_list \<and>
         \<not> list_ex is_return (walk (FunctionDef name lineno end_lineno args body decorator_list))
      then [MissingReturn route_file name lineno] else [])"
| "missing_return_of route_file n = []"

text \<open>
  One route file: a file that cannot be opened or parsed raises inside the \<open>try\<close>, before
  any issue of that file is appended.
\<close>

definition missing_returns_in :: "(string \<Rightarrow> pynode option) \<Rightarrow> files \<Rightarrow> path \<Rightarrow> issue list" where
  "missing_returns_in parse fs route_file =
     (case fs route_file of
        None \<Rightarrow> []
      | Some content \<Rightarrow>
          (case parse content of
             None \<Rightarrow> []
           | Some tree \<Rightarrow> concat (map (missing_return_of route_file) (walk tree))))"

text \<open>
  The loop that looks for duplicated paths: \<open>route_paths\<close> is the dictionary of the paths
  seen so far (only its keys are read).
\<close>

fun duplicate_routes :: "string list \<Rightarrow> route list \<Rightarrow> issue list" where
  "duplicate_routes route_paths [] = []"
| "duplicate_routes route_paths (r # rs) =
     (if r_path r \<in> set route_paths
      then DuplicateRoute (r_file r) (r_path r) (r_function r) # duplicate_routes route_paths rs
      else duplicate_routes (r_path r # route_paths) rs)"

text \<open>\<open>not route.get('methods')\<close>: the entry is \<open>None\<close> or the empty string.\<close>

definition unspecified_methods :: "route list \<Rightarrow> issue list" where
  "unspecified_methods routes =
     map (\<lambda>r. UnspecifiedMethods (r_file r) (r_path r) (r_function r))
       (filter (\<lambda>r. r_methods r = None \<or> r_methods r = Some []) routes)"

definition diagnose_routes ::
    "(string \<Rightarrow> pynode option) \<Rightarrow> files \<Rightarrow> path list \<Rightarrow> route list \<Rightarrow> issue list" where
  "diagnose_routes parse fs route_files routes =
     concat (map (missing_returns_in parse fs) route_files)
     @ duplicate_routes [] routes
     @ unspecified_methods routes"

subsection \<open>Templates\<close>

text \<open>\<open>{%\s*block\s+(\w+)\s*%}\<close>; the name of the block is the fifth element.\<close>

definition block_rx :: "atom list" where
  "block_rx = [Lit ''{%'', Many is_space 0, Lit ''block'', Many is_space 1, Many is_word 1,
               Many is_space 0, Lit ''%}'']"

text \<open>\<open>{%\s*endblock\s*(?:\<close> block \<open>)?\s*%}\<close>\<close>

definition endblock_rx :: "string \<Rightarrow> atom list" where
  "endblock_rx block = [Lit ''{%'', Many is_space 0, Lit ''endblock'', Many is_space 0,
                        OptLit block, Many is_space 0, Lit ''%}'']"

text \<open>\<open>url_for\(\s*['"]([^'"]+)['"]\<close>; the endpoint is the fourth element.\<close>

definition url_for_rx :: "atom list" where
  "url_for_rx = [Lit ''url_for('', Many is_space 0, One is_quote, Many not_quote 1, One is_quote]"

definition findall_blocks :: "string \<Rightarrow> string list" where
  "findall_blocks content = map (\<lambda>(pos, ps). ps ! 4) (finditer block_rx content)"

definition findall_url_for :: "string \<Rightarrow> string list" where
  "findall_url_for content = map (\<lambda>(pos, ps). ps ! 3) (finditer url_for_rx content)"

text \<open>
  The tags that the two patterns recognise, said without the patterns. An opening tag of
  the block \<open>b\<close> is \<open>{%\<close>, white space or none, \<open>block\<close>, white space, the name \<open>b\<close> (one
  or more word characters), white space or none, \<open>%}\<close>. A closing tag for the block \<open>b\<close>
  is \<open>{%\<close>, white space or none, \<open>endblock\<close>, white space or none, then nothing or the
  name \<open>b\<close>, white space or none, \<open>%}\<close>. Neither has the whitespace-control forms
  \<open>{%-\<close> and \<open>-%}\<close> of Jinja.
\<close>

definition block_tag :: "string \<Rightarrow> string \<Rightarrow> bool" where
  "block_tag b tag =
     (\<exists>w1 w2 w3. tag = ''{%'' @ w1 @ ''block'' @ w2 @ b @ w3 @ ''%}'' \<and>
        list_all is_space w1 \<and> w2 \<noteq> [] \<and> list_all is_space w2 \<and>
        b \<noteq> [] \<and> list_all is_word b \<and> list_all is_space w3)"

definition endblock_tag :: "string \<Rightarrow> string \<Rightarrow> bool" where
  "endblock_tag b tag =
     (\<exists>w1 w2 w3. list_all is_space w1 \<and> list_all is_space w2 \<and> list_all is_space w3 \<and>
        (tag = ''{%'' @ w1 @ ''endblock'' @ w2 @ w3 @ ''%}'' \<or>
         tag = ''{%'' @ w1 @ ''endblock'' @ w2 @ b @ w3 @ ''%}''))"

definition unclosed_blocks :: "template \<Rightarrow> string \<Rightarrow> issue list" where
  "unclosed_blocks t content =
     map (UnclosedBlock (t_relative_path t))
       (filter (\<lambda>block. \<not> rsearch (endblock_rx block) content) (findall_blocks content))"

text \<open>An f-string prints a missing function name as \<open>None\<close>.\<close>

definition str_of :: "string option \<Rightarrow> string" where
  "str_of v = (case v of None \<Rightarrow> ''None'' | Some s \<Rightarrow> s)"

definition endpoint_exists :: "route list \<Rightarrow> string \<Rightarrow> bool" where
  "endpoint_exists routes ref =
     list_ex (\<lambda>r. r_function r = Some ref \<or>
                   r_app_or_blueprint r @ ''.'' @ str_of (r_function r) = ref) routes"

definition invalid_url_fors :: "route list \<Rightarrow> template \<Rightarrow> string \<Rightarrow> issue list" where
  "invalid_url_fors routes t content =
     map (InvalidUrlFor (t_relative_path t))
       (filter (\<lambda>ref. \<not> endpoint_exists routes ref) (findall_url_for content))"

definition template_named :: "template list \<Rightarrow> string \<Rightarrow> bool" where
  "template_named templates template_name =
     list_ex (\<lambda>t. t_relative_path t = template_name \<or> t_name t = template_name) templates"

text \<open>
  \<open>template_references\<close> is a dictionary from a template name to the files that render
  it; it is read in insertion order, so it is an association list.
\<close>

definition diagnose_templates ::
    "files \<Rightarrow> template list \<Rightarrow> (string \<times> path list) list \<Rightarrow> route list \<Rightarrow> issue list" where
  "diagnose_templates fs templates template_references routes =
     map (\<lambda>(template_name, references). MissingTemplate template_name references)
       (filter (\<lambda>(template_name, references). \<not> template_named templates template_name)
          template_references)
     @ concat (map (\<lambda>t. case fs (t_path t) of
                           None \<Rightarrow> []
                         | Some content \<Rightarrow> unclosed_blocks t content @ invalid_url_fors routes t content)
                 templates)
     @ map (\<lambda>t. UnusedTemplate (t_relative_path t))
         (filter (\<lambda>t. \<not> list_ex (\<lambda>(referenced, references).
                                     t_relative_path t = referenced \<or> t_name t = referenced)
                                 template_references)
            templates)"

text \<open>The \<open>path\<close> entry of an issue, for the issues that have one.\<close>

fun issue_path :: "issue \<Rightarrow> string option" where
  "issue_path (DuplicateRoute f p n) = Some p"
| "issue_path (UnspecifiedMethods f p n) = Some p"
| "issue_path i = None"

text \<open>The issue that the duplicate check appends for a route.\<close>

definition duplicate_issue :: "route \<Rightarrow> issue" where
  "duplicate_issue r = DuplicateRoute (r_file r) (r_path r) (r_function r)"

subsection \<open>Security\<close>

text \<open>
  The four patterns of \<open>secret_patterns\<close>, matched under \<open>re.IGNORECASE\<close>:
  \<open>NAME\s*=\s*['"]([^'"]{n,})['"]\<close> for a name and a minimum length.
\<close>

definition secret_rx :: "string \<Rightarrow> nat \<Rightarrow> atom list" where
  "secret_rx name n = [LitI (ignore_case name), Many is_space 0, Lit ''='', Many is_space 0,
                       One is_quote, Many not_quote n, One is_quote]"

definition secret_patterns :: "(atom list \<times> string) list" where
  "secret_patterns =
     [(secret_rx ''SECRET_KEY'' 10, ''SECRET_KEY hardcoded''),
      (secret_rx ''password'' 6, ''Senha hardcoded''),
      (secret_rx ''api_key'' 10, ''API key hardcoded''),
      (secret_rx ''token'' 10, ''Token hardcoded'')]"

text \<open>The line of a match: \<open>content[:match.start()].count('\n') + 1\<close>.\<close>

definition line_of :: "string \<Rightarrow> nat \<Rightarrow> nat" where
  "line_of content start = count_newlines (take start content) + 1"

definition hardcoded_secrets_in :: "files \<Rightarrow> path \<Rightarrow> issue list" where
  "hardcoded_secrets_in fs file_path =
     (case fs file_path of
        None \<Rightarrow> []
      | Some content \<Rightarrow>
          concat (map (\<lambda>(pattern, description).
                         map (\<lambda>(start, ps). HardcodedSecret file_path (line_of content start) description)
                           (finditer pattern content))
                    secret_patterns))"

text \<open>The patterns of \<open>insecure_configs\<close>: \<open>NAME\s*=\s*VALUE\<close>, found with \<open>re.search\<close>.\<close>

definition config_rx :: "string \<Rightarrow> string \<Rightarrow> atom list" where
  "config_rx name v = [Lit name, Many is_space 0, Lit ''='', Many is_space 0, Lit v]"

definition insecure_config_patterns :: "(atom list \<times> string) list" where
  "insecure_config_patterns =
     [(config_rx ''DEBUG'' ''True'', ''DEBUG=True em produ'' @ [CHR 0xE7, CHR 0xE3] @ ''o '' @ [CHR 0xE9] @ '' inseguro''),
      (config_rx ''TESTING'' ''True'', ''TESTING=True em produ'' @ [CHR 0xE7, CHR 0xE3] @ ''o '' @ [CHR 0xE9] @ '' inseguro''),
      (config_rx ''WTF_CSRF_ENABLED'' ''False'', ''CSRF prote'' @ [CHR 0xE7, CHR 0xE3] @ ''o desativada''),
      (config_rx ''SQLALCHEMY_TRACK_MODIFICATIONS'' ''True'',
         ''SQLALCHEMY_TRACK_MODIFICATIONS=True impacta performance'')]"

definition insecure_configs_in :: "files \<Rightarrow> path \<Rightarrow> issue list" where
  "insecure_configs_in fs file_path =
     (case fs file_path of
        None \<Rightarrow> []
      | Some content \<Rightarrow>
          map (\<lambda>(pattern, description). InsecureConfig file_path description)
            (filter (\<lambda>(pattern, description). rsearch pattern content) insecure_config_patterns))"

text \<open>Both loops run over \<open>app_files + config_files\<close>.\<close>

definition diagnose_security :: "files \<Rightarrow> path list \<Rightarrow> path list \<Rightarrow> issue list" where
  "diagnose_security fs app_files config_files =
     concat (map (hardcoded_secrets_in fs) (app_files @ config_files))
     @ concat (map (insecure_configs_in fs) (app_files @ config_files))"

section \<open>The healing engine\<close>

text \<open>
  The fix dictionaries, one constructor for each dictionary literal of \<open>healing.py\<close>.
\<close>

datatype applied_fix =
    AddedReturn path string string
  | CreatedTemplate string path
  | ClosedBlock string string
  | FixedUrlFor string string string
  | AddedPasswordField path string
  | RemovedUnusedImport path string
  | RemovedUnusedVariable path string
  | FixedHardcodedSecret path nat
  | FixedInsecureConfig path
  | AddedNPlus1Warning path nat
  | AddedEagerLoadingWarning path

text \<open>
  What the engine reads from its surroundings. \<open>c_backup_name\<close> is the name
  \<open>backup_<int(time.time())>\<close> of the session's backup directory. \<open>c_get_templates\<close> and
  \<open>c_get_routes\<close> are the detector's \<open>get_templates\<close> and \<open>get_routes\<close> on the current
  files. \<open>c_parse\<close> is \<open>ast.parse\<close>, and \<open>c_similarity a b\<close> is
  \<open>difflib.SequenceMatcher(None, a, b).ratio()\<close>: both belong to the Python library. The
  ratio is read as the exact quotient \<open>2 * M / T\<close> (a real number), which the engine
  compares with the exact fraction \<open>3/5\<close>; the floating-point rounding of the quotient
  and of the literal \<open>0.6\<close> is not modelled. \<open>c_is_dir\<close> is \<open>Path.is_dir\<close> on the current
  files: the model of the file system holds the regular files only, and which other paths
  are directories is for the surroundings to say. \<open>c_extending_scaffold\<close> is the content of a
  new template that extends \<open>base.html\<close>: the source writes it as an f-string literal that
  Python does not accept as it stands (its \<open>{%\<close> opens a replacement field), so the text
  that it stands for is left open.
  \<open>c_edit\<close> stands for the text transformations of the repairs that are not modelled in
  detail (\<open>unclosed_block\<close>, \<open>user_model_without_password\<close>, \<open>unused_import\<close>,
  \<open>unused_variable\<close>, \<open>insecure_config\<close>, \<open>missing_eager_loading\<close>): the content the
  repair writes last and the fixes it records, or \<open>None\<close> when it raises or leaves the
  loop before it writes. Every theorem about the engine holds for all of them.
\<close>

record surroundings =
  c_project_path :: path
  c_template_dirs :: "path list"
  c_backup_name :: string
  c_get_templates :: "files \<Rightarrow> template list"
  c_get_routes :: "files \<Rightarrow> route list"
  c_parse :: "string \<Rightarrow> pynode option"
  c_similarity :: "string \<Rightarrow> string \<Rightarrow> real"
  c_is_dir :: "files \<Rightarrow> path \<Rightarrow> bool"
  c_extending_scaffold :: string
  c_edit :: "issue \<Rightarrow> string \<Rightarrow> (string \<times> applied_fix list) option"

text \<open>The engine's state: the files, \<open>self.backup_dir\<close> and \<open>self.fixes\<close>.\<close>

record engine =
  h_files :: files
  h_backup_dir :: "path option"
  h_fixes :: "string \<Rightarrow> applied_fix list"

text \<open>\<open>HealingEngine.__init__\<close>\<close>

definition new_engine :: "files \<Rightarrow> engine" where
  "new_engine fs = \<lparr>h_files = fs, h_backup_dir = None, h_fixes = (\<lambda>category. [])\<rparr>"

text \<open>The issues by category, as \<open>diagnose\<close> returns them.\<close>

record issues =
  i_routes :: "issue list"
  i_templates :: "issue list"
  i_database :: "issue list"
  i_code :: "issue list"
  i_security :: "issue list"
  i_performance :: "issue list"

datatype failure = ValueError | FileNotFoundError | SameFileError

text \<open>\<open>create_backups()\<close>, as \<open>heal\<close> and \<open>backup_file\<close> call it, without a directory.\<close>

definition create_backups :: "surroundings \<Rightarrow> engine \<Rightarrow> engine" where
  "create_backups cx e =
     e\<lparr>h_backup_dir := Some (c_project_path cx @ [''backups'', c_backup_name cx])\<rparr>"

text \<open>
  \<open>backup_file\<close>: \<open>relative_to\<close> raises \<open>ValueError\<close> for a file outside the project,
  \<open>shutil.copy2\<close> raises for a missing file and for a copy onto itself, and otherwise
  writes the copy, over an earlier one if there is one. A failure leaves the backup
  directory set. The directories of the backup path are taken to be there or creatable:
  a backup path that is an existing directory, or that runs through a regular file, is
  not modelled.
\<close>

definition backup_file :: "surroundings \<Rightarrow> path \<Rightarrow> engine \<Rightarrow> failure option \<times> engine" where
  "backup_file cx file_path e0 =
     (let e = (if h_backup_dir e0 = None then create_backups cx e0 else e0) in
      case h_backup_dir e of
        None \<Rightarrow> (Some FileNotFoundError, e)
      | Some backup_dir \<Rightarrow>
          if \<not> prefix (c_project_path cx) file_path then (Some ValueError, e)
          else
            let relative_path = drop (length (c_project_path cx)) file_path;
                backup_path = backup_dir @ relative_path
            in (case h_files e file_path of
                  None \<Rightarrow> (Some FileNotFoundError, e)
                | Some content \<Rightarrow>
                    if backup_path = file_path then (Some SameFileError, e)
                    else (None, e\<lparr>h_files := (h_files e)(backup_path \<mapsto> content)\<rparr>)))"

definition write_file :: "path \<Rightarrow> string \<Rightarrow> engine \<Rightarrow> engine" where
  "write_file file_path content e = e\<lparr>h_files := (h_files e)(file_path \<mapsto> content)\<rparr>"

definition add_fixes :: "string \<Rightarrow> applied_fix list \<Rightarrow> engine \<Rightarrow> engine" where
  "add_fixes category fxs e = e\<lparr>h_fixes := (h_fixes e)(category := h_fixes e category @ fxs)\<rparr>"

text \<open>
  The frame that every repair of a file shares: \<open>self.backup_file(file_path)\<close>, read the
  file, compute the new content, write it, append the fixes; all inside one \<open>try\<close>, so
  that an exception (or a \<open>continue\<close>) before the write leaves the file as it is. The
  result says whether the repair wrote.
\<close>

definition patch ::
    "surroundings \<Rightarrow> string \<Rightarrow> path \<Rightarrow> (engine \<Rightarrow> string \<Rightarrow> (string \<times> applied_fix list) option) \<Rightarrow> engine
      \<Rightarrow> engine \<times> bool" where
  "patch cx category file_path repair e0 =
     (case backup_file cx file_path e0 of
        (Some err, e) \<Rightarrow> (e, False)
      | (None, e) \<Rightarrow>
          (case h_files e file_path of
             None \<Rightarrow> (e, False)
           | Some content \<Rightarrow>
               (case repair e content of
                  None \<Rightarrow> (e, False)
                | Some (new_content, fxs) \<Rightarrow>
                    (add_fixes category fxs (write_file file_path new_content e), True))))"

subsection \<open>Creating a template\<close>

text \<open>
  \<open>Path(template_dir) / template_name\<close>: the name is split at \<open>/\<close>, empty and \<open>.\<close>
  components are dropped, and a name that starts with \<open>/\<close> replaces the directory. The
  model does not resolve \<open>..\<close> components: a path stands for one file only.
\<close>

fun split_slash :: "string \<Rightarrow> string list" where
  "split_slash [] = [[]]"
| "split_slash (c # cs) =
     (if c = CHR ''/'' then [] # split_slash cs
      else (case split_slash cs of l # ls \<Rightarrow> (c # l) # ls | [] \<Rightarrow> [[c]]))"

definition path_join :: "path \<Rightarrow> string \<Rightarrow> path" where
  "path_join dir name =
     (let parts = filter (\<lambda>part. part \<noteq> [] \<and> part \<noteq> ''.'') (split_slash name)
      in if startswith name ''/'' then parts else dir @ parts)"

text \<open>
  The two scaffolds. The first one is the literal of the source character by character,
  the text that the literal stands for without its \<open>f\<close> prefix; the engine writes
  \<open>c_extending_scaffold\<close>, of which this text is one reading.
\<close>

definition pagina :: string where
  "pagina = ''P'' @ [CHR 0xE1] @ ''gina''"

definition extending_scaffold :: string where
  "extending_scaffold = join_lines
     [''{% extends '{base_template}' %}'',
      [],
      ''{% block content %}'',
      ''<div class=\"container mt-4\">'',
      ''  <div class=\"card\">'',
      ''    <div class=\"card-header\">'',
      ''      <h2>{{ title|default('' @ [CHR 0x27] @ pagina @ [CHR 0x27] @ '') }}</h2>'',
      ''    </div>'',
      ''    <div class=\"card-body\">'',
      ''      <p>Template gerado automaticamente.</p>'',
      ''    </div>'',
      ''  </div>'',
      ''</div>'',
      ''{% endblock %}'',
      []]"

definition standalone_scaffold :: string where
  "standalone_scaffold = join_lines
     [''<!DOCTYPE html>'',
      ''<html lang=\"pt-br\">'',
      ''<head>'',
      ''    <meta charset=\"UTF-8\">'',
      ''    <meta name=\"viewport\" content=\"width=device-width, initial-scale=1.0\">'',
      ''    <title>{{ title|default('' @ [CHR 0x27] @ pagina @ [CHR 0x27] @ '') }}</title>'',
      ''    <link href=\"https://cdn.jsdelivr.net/npm/bootstrap@5.3.0-alpha1/dist/css/bootstrap.min.css\" rel=\"stylesheet\">'',
      ''</head>'',
      ''<body>'',
      ''    <div class=\"container mt-4\">'',
      ''        <div class=\"card\">'',
      ''            <div class=\"card-header\">'',
      ''                <h2>{{ title|default('' @ [CHR 0x27] @ pagina @ [CHR 0x27] @ '') }}</h2>'',
      ''            </div>'',
      ''            <div class=\"card-body\">'',
      ''                <p>Template gerado automaticamente.</p>'',
      ''            </div>'',
      ''        </div>'',
      ''    </div>'',
      ''    '',
      ''    <script src=\"https://cdn.jsdelivr.net/npm/bootstrap@5.3.0-alpha1/dist/js/bootstrap.bundle.min.js\"></script>'',
      ''</body>'',
      ''</html>'',
      []]"

text \<open>
  \<open>p.exists()\<close>: a regular file or a directory is there.
\<close>

definition path_exists :: "surroundings \<Rightarrow> engine \<Rightarrow> path \<Rightarrow> bool" where
  "path_exists cx e p = (h_files e p \<noteq> None \<or> c_is_dir cx (h_files e) p)"

text \<open>
  \<open>p.parent.mkdir(parents=True, exist_ok=True)\<close> raises when the parent, or a directory
  above it, is a regular file.
\<close>

definition runs_through_file :: "engine \<Rightarrow> path \<Rightarrow> bool" where
  "runs_through_file e p = list_ex (\<lambda>k. h_files e (take k p) \<noteq> None) [1..<length p]"

text \<open>
  \<open>_ensure_template_exists\<close>: nothing without a template directory, nothing when the path
  is already there; \<open>mkdir\<close> raises when the path runs through a regular file, which the
  callers catch before anything is written; otherwise the scaffold is written to the new
  path, without a backup, and a \<open>created_template\<close> fix is recorded.
\<close>

definition ensure_template_exists :: "surroundings \<Rightarrow> string \<Rightarrow> engine \<Rightarrow> engine" where
  "ensure_template_exists cx template_name e =
     (case c_template_dirs cx of
        [] \<Rightarrow> e
      | template_dir # other_dirs \<Rightarrow>
          let template_path = path_join template_dir template_name in
          if path_exists cx e template_path then e
          else if runs_through_file e template_path then e
          else
            let template_content =
                  (if path_exists cx e (path_join template_dir ''base.html'')
                   then c_extending_scaffold cx else standalone_scaffold)
            in add_fixes ''templates'' [CreatedTemplate template_name template_path]
                 (write_file template_path template_content e))"

subsection \<open>Routes without a return\<close>

text \<open>\<open>s.replace(old, new)\<close> for a non-empty \<open>old\<close>.\<close>

definition str_replace :: "string \<Rightarrow> string \<Rightarrow> string \<Rightarrow> string" where
  "str_replace s old new = re_sub [Lit old] new s"

definition crud_mapping :: "(string \<times> string) list" where
  "crud_mapping =
     [(''list'', ''list.html''), (''show'', ''show.html''), (''create'', ''create.html''),
      (''edit'', ''edit.html''), (''delete'', ''delete.html'')]"

text \<open>\<open>Path(file_path).parent.name\<close>\<close>

definition parent_name :: "path \<Rightarrow> string" where
  "parent_name file_path = (case rev file_path of file # dir # rest \<Rightarrow> dir | _ \<Rightarrow> [])"

fun infer_crud :: "string \<Rightarrow> string \<Rightarrow> (string \<times> string) list \<Rightarrow> string" where
  "infer_crud blueprint_prefix function_name [] = blueprint_prefix @ function_name @ ''.html''"
| "infer_crud blueprint_prefix function_name ((crud_action, template_suffix) # rest) =
     (if startswith function_name crud_action \<or> endswith function_name crud_action
      then blueprint_prefix
           @ str_replace (str_replace function_name (crud_action @ ''_'') []) (''_'' @ crud_action) []
           @ ''/'' @ template_suffix
      else infer_crud blueprint_prefix function_name rest)"

definition infer_template_for_route :: "string \<Rightarrow> path \<Rightarrow> string" where
  "infer_template_for_route function_name file_path =
     (let file_dir = parent_name file_path;
          blueprint_prefix = (if file_dir \<noteq> ''routes'' then file_dir @ ''/'' else [])
      in if function_name = ''index'' \<or> function_name = ''home''
         then blueprint_prefix @ ''index.html''
         else infer_crud blueprint_prefix function_name crud_mapping)"

text \<open>\<open>lines.insert(i, x)\<close> for \<open>0 \<le> i\<close>: past the end it appends.\<close>

definition insert_at :: "nat \<Rightarrow> 'a \<Rightarrow> 'a list \<Rightarrow> 'a list" where
  "insert_at i x xs = take i xs @ x # drop i xs"

text \<open>
  The loop that looks for the last import: the index of the last line that starts with
  \<open>import\<close> or \<open>from\<close>, 0 when there is none.
\<close>

definition is_import_line :: "string \<Rightarrow> bool" where
  "is_import_line line = (startswith line ''import '' \<or> startswith line ''from '')"

definition last_import_line :: "string list \<Rightarrow> nat" where
  "last_import_line lines =
     fold (\<lambda>(i, line) found. if is_import_line line then i else found) (enumerate 0 lines) 0"

text \<open>The first line that starts with \<open>from flask import\<close> gets \<open>render_template\<close> appended.\<close>

definition extend_import :: "string \<Rightarrow> string" where
  "extend_import line =
     (if endswith line '','' then line @ '' render_template,''
      else if endswith line '')'' then butlast line @ '', render_template)''
      else line @ '', render_template'')"

fun extend_flask_import :: "string list \<Rightarrow> string list" where
  "extend_flask_import [] = []"
| "extend_flask_import (line # rest) =
     (if startswith line ''from flask import''
      then (if contains ''render_template'' line then line else extend_import line) # rest
      else line # extend_flask_import rest)"

definition with_render_template_import :: "string \<Rightarrow> string list \<Rightarrow> string list" where
  "with_render_template_import content lines =
     (if contains ''render_template'' content then lines
      else if contains ''from flask import'' content then extend_flask_import lines
      else insert_at (last_import_line lines + 1) ''from flask import render_template'' lines)"

text \<open>The leading white space of a line: \<open>re.match(r'^(\s*)', first_line).group(1)\<close>.\<close>

definition indent_of :: "string \<Rightarrow> string" where
  "indent_of line = takeWhile is_space line"

text \<open>
  The text of the repair for the function definition \<open>node\<close> found in the tree:
  \<open>function_end = node.end_lineno - 1\<close> is the index of the last line of the function,
  and \<open>lines.insert(function_end, return_line)\<close> puts the new line before that index.
  It is computed only when the lines of the function are not empty.
\<close>

definition add_return :: "string \<Rightarrow> string \<Rightarrow> nat \<Rightarrow> nat \<Rightarrow> bool \<Rightarrow> string" where
  "add_return content template_name lineno end_lineno has_body =
     (let function_lines = take (end_lineno - (lineno - 1)) (drop (lineno - 1) (split_lines content));
          base_indent = (case function_lines of first_line # others \<Rightarrow> indent_of first_line | [] \<Rightarrow> []);
          body_indent = base_indent @ ''    '';
          function_end = end_lineno - 1;
          lines = with_render_template_import content (split_lines content);
          return_line = body_indent @ ''return render_template('' @ [CHR 0x27] @ template_name
                        @ [CHR 0x27] @ '')''
      in join_lines (if has_body then insert_at function_end return_line lines
                     else insert_at lineno return_line lines))"

text \<open>
  The loop over \<open>ast.walk(tree)\<close>: the first function definition with the name of the
  issue whose lines are not empty is repaired, and the loop ends.
\<close>

fun find_function :: "string \<Rightarrow> string list \<Rightarrow> pynode list \<Rightarrow> (nat \<times> nat \<times> bool) option" where
  "find_function function_name lines [] = None"
| "find_function function_name lines
     (FunctionDef name lineno end_lineno args body decorator_list # nodes) =
     (if name = function_name \<and> take (end_lineno - (lineno - 1)) (drop (lineno - 1) lines) \<noteq> []
      then Some (lineno, end_lineno, body \<noteq> [])
      else find_function function_name lines nodes)"
| "find_function function_name lines (n # nodes) = find_function function_name lines nodes"

definition missing_return_repair ::
    "surroundings \<Rightarrow> path \<Rightarrow> string \<Rightarrow> engine \<Rightarrow> string \<Rightarrow> (string \<times> applied_fix list) option" where
  "missing_return_repair cx file_path function_name e content =
     (case c_parse cx content of
        None \<Rightarrow> None
      | Some tree \<Rightarrow>
          (case find_function function_name (split_lines content) (walk tree) of
             None \<Rightarrow> None
           | Some (lineno, end_lineno, has_body) \<Rightarrow>
               let template_name = infer_template_for_route function_name file_path
               in Some (add_return content template_name lineno end_lineno has_body,
                        [AddedReturn file_path function_name template_name])))"

fun heal_route_issue :: "surroundings \<Rightarrow> issue \<Rightarrow> engine \<Rightarrow> engine" where
  "heal_route_issue cx (MissingReturn file_path function_name line) e0 =
     (case patch cx ''routes'' file_path (missing_return_repair cx file_path function_name) e0 of
        (e, True) \<Rightarrow> ensure_template_exists cx (infer_template_for_route function_name file_path) e
      | (e, False) \<Rightarrow> e)"
| "heal_route_issue cx i e0 = e0"

definition heal_routes :: "surroundings \<Rightarrow> issue list \<Rightarrow> engine \<Rightarrow> engine" where
  "heal_routes cx route_issues e = fold (heal_route_issue cx) route_issues e"

subsection \<open>Templates\<close>

text \<open>The path of the first template with the relative path of the issue.\<close>

definition template_path_of :: "template list \<Rightarrow> string \<Rightarrow> path option" where
  "template_path_of templates relative_path =
     map_option t_path (find (\<lambda>t. t_relative_path t = relative_path) templates)"

text \<open>A repair whose text transformation is \<open>c_edit\<close>.\<close>

definition edit_repair ::
    "surroundings \<Rightarrow> issue \<Rightarrow> engine \<Rightarrow> string \<Rightarrow> (string \<times> applied_fix list) option" where
  "edit_repair cx i e content = c_edit cx i content"

fun heal_unclosed_block :: "surroundings \<Rightarrow> issue \<Rightarrow> engine \<Rightarrow> engine" where
  "heal_unclosed_block cx (UnclosedBlock template_name block) e0 =
     (case template_path_of (c_get_templates cx (h_files e0)) template_name of
        None \<Rightarrow> e0
      | Some template_path \<Rightarrow>
          fst (patch cx ''templates'' template_path
                 (edit_repair cx (UnclosedBlock template_name block)) e0))"
| "heal_unclosed_block cx i e0 = e0"

text \<open>
  The candidate endpoints: the function of every route (\<open>None\<close> when the detector found
  none), and \<open>owner.function\<close> when both are not empty.
\<close>

definition endpoints_of :: "route list \<Rightarrow> string option list" where
  "endpoints_of routes =
     concat (map (\<lambda>r. r_function r #
                       (case r_function r of
                          None \<Rightarrow> []
                        | Some f \<Rightarrow> if r_app_or_blueprint r \<noteq> [] \<and> f \<noteq> []
                                    then [Some (r_app_or_blueprint r @ ''.'' @ f)] else []))
               routes)"

text \<open>
  \<open>difflib.get_close_matches(word, possibilities, n=1, cutoff=0.6)\<close>. The candidates whose
  ratio reaches the cutoff are collected with their scores, in order; a candidate that is
  \<open>None\<close> raises \<open>TypeError\<close>. Of the collected pairs the largest is returned, pairs
  being compared as Python compares tuples: by score, then by the text; of equal pairs
  the first.
\<close>

definition cutoff :: real where
  "cutoff = 6 / 10"

fun scored_matches :: "(string \<Rightarrow> string \<Rightarrow> real) \<Rightarrow> string \<Rightarrow> string option list
    \<Rightarrow> (real \<times> string) list option" where
  "scored_matches sim word [] = Some []"
| "scored_matches sim word (None # xs) = None"
| "scored_matches sim word (Some x # xs) =
     (case scored_matches sim word xs of
        None \<Rightarrow> None
      | Some result \<Rightarrow> Some (if cutoff \<le> sim x word then (sim x word, x) # result else result))"

fun str_less :: "string \<Rightarrow> string \<Rightarrow> bool" where
  "str_less [] [] = False"
| "str_less [] (y # ys) = True"
| "str_less (x # xs) [] = False"
| "str_less (x # xs) (y # ys) =
     ((of_char x :: nat) < of_char y \<or> (x = y \<and> str_less xs ys))"

definition pair_less :: "real \<times> string \<Rightarrow> real \<times> string \<Rightarrow> bool" where
  "pair_less a b = (fst a < fst b \<or> (fst a = fst b \<and> str_less (snd a) (snd b)))"

fun largest_from :: "real \<times> string \<Rightarrow> (real \<times> string) list \<Rightarrow> real \<times> string" where
  "largest_from best [] = best"
| "largest_from best (y # ys) = largest_from (if pair_less best y then y else best) ys"

definition get_close_match ::
    "(string \<Rightarrow> string \<Rightarrow> real) \<Rightarrow> string \<Rightarrow> string option list \<Rightarrow> string option option" where
  "get_close_match sim word possibilities =
     (case scored_matches sim word possibilities of
        None \<Rightarrow> None
      | Some [] \<Rightarrow> Some None
      | Some (y # ys) \<Rightarrow> Some (Some (snd (largest_from y ys))))"

text \<open>\<open>url_for\(\s*['"]\<close> endpoint \<open>\s*['"]\<close>, the endpoint escaped.\<close>

definition url_for_ref_rx :: "string \<Rightarrow> atom list" where
  "url_for_ref_rx endpoint =
     [Lit ''url_for('', Many is_space 0, One is_quote, Lit endpoint, Many is_space 0, One is_quote]"

definition url_for_repair ::
    "surroundings \<Rightarrow> string \<Rightarrow> string \<Rightarrow> engine \<Rightarrow> string \<Rightarrow> (string \<times> applied_fix list) option" where
  "url_for_repair cx template_name endpoint e content =
     (let endpoints = endpoints_of (c_get_routes cx (h_files e)) in
      if endpoints = [] then None
      else (case get_close_match (c_similarity cx) endpoint endpoints of
              None \<Rightarrow> None
            | Some None \<Rightarrow> None
            | Some (Some similar_endpoint) \<Rightarrow>
                Some (re_sub (url_for_ref_rx endpoint)
                        (''url_for('' @ [CHR 0x27] @ similar_endpoint @ [CHR 0x27]) content,
                      [FixedUrlFor template_name endpoint similar_endpoint])))"

fun heal_invalid_url_for :: "surroundings \<Rightarrow> issue \<Rightarrow> engine \<Rightarrow> engine" where
  "heal_invalid_url_for cx (InvalidUrlFor template_name endpoint) e0 =
     (case template_path_of (c_get_templates cx (h_files e0)) template_name of
        None \<Rightarrow> e0
      | Some template_path \<Rightarrow>
          fst (patch cx ''templates'' template_path (url_for_repair cx template_name endpoint) e0))"
| "heal_invalid_url_for cx i e0 = e0"

fun heal_missing_template :: "surroundings \<Rightarrow> issue \<Rightarrow> engine \<Rightarrow> engine" where
  "heal_missing_template cx (MissingTemplate template_name references) e0 =
     ensure_template_exists cx template_name e0"
| "heal_missing_template cx i e0 = e0"

text \<open>\<open>_heal_templates\<close>: three loops over the same list, one after the other.\<close>

definition heal_templates :: "surroundings \<Rightarrow> issue list \<Rightarrow> engine \<Rightarrow> engine" where
  "heal_templates cx template_issues e =
     fold (heal_missing_template cx) template_issues
       (fold (heal_invalid_url_for cx) template_issues
          (fold (heal_unclosed_block cx) template_issues e))"

subsection \<open>Database and code\<close>

fun heal_database_issue :: "surroundings \<Rightarrow> issue \<Rightarrow> engine \<Rightarrow> engine" where
  "heal_database_issue cx (UserModelWithoutPassword file_path model_name) e0 =
     fst (patch cx ''database'' file_path
            (edit_repair cx (UserModelWithoutPassword file_path model_name)) e0)"
| "heal_database_issue cx i e0 = e0"

definition heal_database :: "surroundings \<Rightarrow> issue list \<Rightarrow> engine \<Rightarrow> engine" where
  "heal_database cx database_issues e = fold (heal_database_issue cx) database_issues e"

fun heal_unused_import :: "surroundings \<Rightarrow> issue \<Rightarrow> engine \<Rightarrow> engine" where
  "heal_unused_import cx (UnusedImport file_path import_name line) e0 =
     fst (patch cx ''code'' file_path
            (edit_repair cx (UnusedImport file_path import_name line)) e0)"
| "heal_unused_import cx i e0 = e0"

fun heal_unused_variable :: "surroundings \<Rightarrow> issue \<Rightarrow> engine \<Rightarrow> engine" where
  "heal_unused_variable cx (UnusedVariable file_path variable_name line) e0 =
     fst (patch cx ''code'' file_path
            (edit_repair cx (UnusedVariable file_path variable_name line)) e0)"
| "heal_unused_variable cx i e0 = e0"

definition heal_code :: "surroundings \<Rightarrow> issue list \<Rightarrow> engine \<Rightarrow> engine" where
  "heal_code cx code_issues e =
     fold (heal_unused_variable cx) code_issues (fold (heal_unused_import cx) code_issues e)"

subsection \<open>Security\<close>

text \<open>\<open>SECRET_KEY\s*=\s*['"]([^'"]+)['"]\<close>, case sensitive, and what replaces it.\<close>

definition secret_key_rx :: "atom list" where
  "secret_key_rx = [Lit ''SECRET_KEY'', Many is_space 0, Lit ''='', Many is_space 0,
                    One is_quote, Many not_quote 1, One is_quote]"

definition secret_key_replacement :: string where
  "secret_key_replacement =
     ''SECRET_KEY = os.environ.get('SECRET_KEY', 'development-key-CHANGE-ME-in-production')''"

definition secret_todo :: string where
  "secret_todo = '' # TODO: Mover para vari'' @ [CHR 0xE1] @ ''vel de ambiente ou arquivo de configura''
                 @ [CHR 0xE7, CHR 0xE3] @ ''o''"

text \<open>
  The text of the \<open>hardcoded_secret\<close> repair; \<open>None\<close> is the \<open>continue\<close> for a line
  outside the file. On the way to \<open>import os\<close> the loop
  \<open>for i, line in enumerate(lines)\<close> binds \<open>line\<close> again: after it \<open>line\<close> is the last
  line of the file, and that is the text the substitution then works on. The new import
  is inserted before the assignment to \<open>lines[line_index]\<close>, which keeps the old index.
\<close>

definition heal_secret_text :: "string \<Rightarrow> nat \<Rightarrow> string option" where
  "heal_secret_text content line_no =
     (let lines = split_lines content in
      if line_no = 0 \<or> length lines \<le> line_no - 1 then None
      else
        let line_index = line_no - 1;
            line = lines ! line_index
        in if contains ''SECRET_KEY'' line
           then (if contains ''os.environ.get'' content \<or> contains ''import os'' content
                 then Some (join_lines
                        (lines[line_index := re_sub secret_key_rx secret_key_replacement line]))
                 else Some (join_lines
                        ((insert_at (last_import_line lines + 1) ''import os'' lines)
                           [line_index := re_sub secret_key_rx secret_key_replacement (last lines)])))
           else Some (join_lines (lines[line_index := line @ secret_todo])))"

definition secret_repair ::
    "path \<Rightarrow> nat \<Rightarrow> engine \<Rightarrow> string \<Rightarrow> (string \<times> applied_fix list) option" where
  "secret_repair file_path line_no e content =
     map_option (\<lambda>new_content. (new_content, [FixedHardcodedSecret file_path line_no]))
       (heal_secret_text content line_no)"

fun heal_hardcoded_secret :: "surroundings \<Rightarrow> issue \<Rightarrow> engine \<Rightarrow> engine" where
  "heal_hardcoded_secret cx (HardcodedSecret file_path line_no description) e0 =
     fst (patch cx ''security'' file_path (secret_repair file_path line_no) e0)"
| "heal_hardcoded_secret cx i e0 = e0"

fun heal_insecure_config :: "surroundings \<Rightarrow> issue \<Rightarrow> engine \<Rightarrow> engine" where
  "heal_insecure_config cx (InsecureConfig file_path description) e0 =
     fst (patch cx ''security'' file_path
            (edit_repair cx (InsecureConfig file_path description)) e0)"
| "heal_insecure_config cx i e0 = e0"

definition heal_security :: "surroundings \<Rightarrow> issue list \<Rightarrow> engine \<Rightarrow> engine" where
  "heal_security cx security_issues e =
     fold (heal_insecure_config cx) security_issues
       (fold (heal_hardcoded_secret cx) security_issues e)"

subsection \<open>Performance\<close>

definition n_plus_1_todo :: string where
  "n_plus_1_todo =
     '' # TODO: Potencial problema de N+1 query, considere usar joinedload ou subqueryload''"

definition heal_n_plus_1_text :: "string \<Rightarrow> nat \<Rightarrow> string option" where
  "heal_n_plus_1_text content line_no =
     (let lines = split_lines content in
      if line_no = 0 \<or> length lines \<le> line_no - 1 then None
      else Some (join_lines (lines[line_no - 1 := lines ! (line_no - 1) @ n_plus_1_todo])))"

definition n_plus_1_repair ::
    "path \<Rightarrow> nat \<Rightarrow> engine \<Rightarrow> string \<Rightarrow> (string \<times> applied_fix list) option" where
  "n_plus_1_repair file_path line_no e content =
     map_option (\<lambda>new_content. (new_content, [AddedNPlus1Warning file_path line_no]))
       (heal_n_plus_1_text content line_no)"

fun heal_n_plus_1 :: "surroundings \<Rightarrow> issue \<Rightarrow> engine \<Rightarrow> engine" where
  "heal_n_plus_1 cx (NPlus1Query file_path line_no) e0 =
     fst (patch cx ''performance'' file_path (n_plus_1_repair file_path line_no) e0)"
| "heal_n_plus_1 cx i e0 = e0"

fun heal_eager_loading :: "surroundings \<Rightarrow> issue \<Rightarrow> engine \<Rightarrow> engine" where
  "heal_eager_loading cx (MissingEagerLoading file_path) e0 =
     fst (patch cx ''performance'' file_path (edit_repair cx (MissingEagerLoading file_path)) e0)"
| "heal_eager_loading cx i e0 = e0"

definition heal_performance :: "surroundings \<Rightarrow> issue list \<Rightarrow> engine \<Rightarrow> engine" where
  "heal_performance cx performance_issues e =
     fold (heal_eager_loading cx) performance_issues
       (fold (heal_n_plus_1 cx) performance_issues e)"

subsection \<open>The whole run\<close>

text \<open>\<open>heal(create_backups)\<close>: the backup directory first, if asked, then the six categories.\<close>

definition heal :: "surroundings \<Rightarrow> issues \<Rightarrow> bool \<Rightarrow> engine \<Rightarrow> engine" where
  "heal cx iss create e0 =
     (let e1 = (if create then create_backups cx e0 else e0);
          e2 = heal_routes cx (i_routes iss) e1;
          e3 = heal_templates cx (i_templates iss) e2;
          e4 = heal_database cx (i_database iss) e3;
          e5 = heal_code cx (i_code iss) e4;
          e6 = heal_security cx (i_security iss) e5
      in heal_performance cx (i_performance iss) e6)"

subsection \<open>Where the backups are\<close>

text \<open>The session's backup directory, and the backup of a file of the project in it.\<close>

definition backup_root :: "surroundings \<Rightarrow> path" where
  "backup_root cx = c_project_path cx @ [''backups'', c_backup_name cx]"

definition backup_path_of :: "surroundings \<Rightarrow> path \<Rightarrow> path" where
  "backup_path_of cx file_path = backup_root cx @ drop (length (c_project_path cx)) file_path"

text \<open>
  The invariant of a run that started from the files \<open>fs0\<close>: the backup directory, once
  set, is the session's; no file disappears; and a file of \<open>fs0\<close> outside the backup
  directory whose content is no longer the original one belongs to the project and has a
  backup.
\<close>




definition backed_up :: "surroundings \<Rightarrow> files \<Rightarrow> engine \<Rightarrow> bool" where
  "backed_up cx fs0 e =
     ((h_backup_dir e = None \<or> h_backup_dir e = Some (backup_root cx)) \<and>
      (\<forall>p. fs0 p \<noteq> None \<longrightarrow> h_files e p \<noteq> None) \<and>
      (\<forall>p c. fs0 p = Some c \<and> h_files e p \<noteq> Some c \<and> \<not> prefix (backup_root cx) p \<longrightarrow>
         prefix (c_project_path cx) p \<and> h_files e (backup_path_of cx p) \<noteq> None))"





text \<open>
  The candidates that the repair of the template at \<open>template_path\<close> compares with the
  endpoint: the routes are read after the backup of the template is written.
\<close>

definition url_for_candidates :: "surroundings \<Rightarrow> path \<Rightarrow> engine \<Rightarrow> string option list" where
  "url_for_candidates cx template_path e0 =
     endpoints_of (c_get_routes cx (h_files (snd (backup_file cx template_path e0))))"

section \<open>An example project\<close>

text \<open>
  A project \<open>/srv/shop\<close> with one application file, healed at time 1700000000. The
  components of the surroundings that the repairs of the examples do not reach are empty.
\<close>

definition shop :: path where
  "shop = [''srv'', ''shop'']"

definition shop_app :: path where
  "shop_app = [''srv'', ''shop'', ''app.py'']"

definition shop_surroundings :: surroundings where
  "shop_surroundings =
     \<lparr>c_project_path = shop, c_template_dirs = [], c_backup_name = ''backup_1700000000'',
      c_get_templates = (\<lambda>fs. []), c_get_routes = (\<lambda>fs. []), c_parse = (\<lambda>content. None),
      c_similarity = (\<lambda>a b. 0), c_is_dir = (\<lambda>fs p. False),
      c_extending_scaffold = extending_scaffold, c_edit = (\<lambda>i content. None)\<rparr>"

text \<open>
  An application file with two secrets. The diagnostic finds the two \<open>hardcoded_secret\<close>
  issues in it, and nothing else that has a repair: the import and the variable are used.
\<close>

definition two_secrets :: string where
  "two_secrets = join_lines
     [''from flask import Flask'',
      ''app = Flask(\"shop\")'',
      ''app.password = \"hunter22\"'',
      ''app.token = \"abcdefghij1234\"'',
      []]"


definition two_secret_issues :: "issue list" where
  "two_secret_issues =
     [HardcodedSecret shop_app 3 ''Senha hardcoded'', HardcodedSecret shop_app 4 ''Token hardcoded'']"

definition security_issues_only :: "issue list \<Rightarrow> issues" where
  "security_issues_only found =
     \<lparr>i_routes = [], i_templates = [], i_database = [NoDatabase], i_code = [],
      i_security = found, i_performance = []\<rparr>"

text \<open>An application file with a hardcoded \<open>SECRET_KEY\<close>, and no import of \<open>os\<close>.\<close>

definition one_secret_key :: string where
  "one_secret_key = join_lines
     [''from flask import Flask'',
      ''app = Flask(__name__)'',
      ''SECRET_KEY = \"abcdef1234567890\"'',
      ''app.secret_key = SECRET_KEY'',
      []]"

definition one_secret_key_issues :: "issue list" where
  "one_secret_key_issues = [HardcodedSecret shop_app 3 ''SECRET_KEY hardcoded'']"

text \<open>
  A template of the example that refers to the endpoint \<open>show_usr\<close>, and surroundings
  with that template, one route with the given function, and the given similarity.
\<close>

definition shop_page :: path where
  "shop_page = [''srv'', ''shop'', ''templates'', ''page.html'']"

definition page_surroundings :: "(string \<Rightarrow> string \<Rightarrow> real) \<Rightarrow> string \<Rightarrow> surroundings" where
  "page_surroundings sim function_name =
     shop_surroundings
       \<lparr>c_get_templates := (\<lambda>fs. [\<lparr>t_path = shop_page, t_relative_path = ''page.html'',
                                     t_name = ''page.html''\<rparr>]),
        c_get_routes := (\<lambda>fs. [\<lparr>r_file = shop_app, r_app_or_blueprint = ''app'', r_path = ''/show'',
                                  r_methods = None, r_function = Some function_name\<rparr>]),
        c_similarity := sim\<rparr>"

definition page_text :: string where
  "page_text = ''<a href=\"{{ url_for('show_usr') }}\">''"

text \<open>
  A route function whose body is a docstring of three lines, and nothing else.
\<close>

definition show_route :: string where
  "show_route = join_lines
     [''from flask import Flask'',
      ''app = Flask(__name__)'',
      [],
      ''@app.route('/show')'',
      ''def show():'',
      ''    \"\"\"'',
      ''    Show page.'',
      ''    \"\"\"'',
      []]"

text \<open>The file after the repair, as the engine writes it.\<close>

definition show_route_healed :: string where
  "show_route_healed = join_lines
     [''from flask import Flask, render_template'',
      ''app = Flask(__name__)'',
      [],
      ''@app.route('/show')'',
      ''def show():'',
      ''    \"\"\"'',
      ''    Show page.'',
      ''    return render_template('shop/show/show.html')'',
      ''    \"\"\"'',
      []]"

text \<open>
  What \<open>ast.parse\<close> returns for the two texts: the module with the import of
  \<open>aliases\<close> names, the assignment and the function definition at lines 5 to
  \<open>end_lineno\<close>, decorated with the call of \<open>app.route\<close>, whose body is the one expression
  statement of the string; other nodes are \<open>Node\<close>. In the second text the import has a
  second name, the new line is inside the string, and the function ends one line later.
\<close>

definition show_tree :: "nat \<Rightarrow> nat \<Rightarrow> pynode" where
  "show_tree aliases end_lineno =
     Node [Node (replicate aliases (Node [])),
           Assign 2 [Name ''app''] (Call (Name ''Flask'') [Name ''__name__'']),
           FunctionDef ''show'' 5 end_lineno (Node []) [Node [Node []]]
             [Call (Attribute (Name ''app'') ''route'') [Node []]]]"

definition show_parser :: "string \<Rightarrow> pynode option" where
  "show_parser content =
     (if content = show_route then Some (show_tree 1 8)
      else if content = show_route_healed then Some (show_tree 2 9)
      else None)"

text \<open>The route that \<open>get_routes\<close> extracts; it finds no function for it.\<close>

definition show_routes :: "route list" where
  "show_routes = [\<lparr>r_file = shop_app, r_app_or_blueprint = ''app'', r_path = ''/show'',
                    r_methods = None, r_function = None\<rparr>]"

definition route_issues_only :: "issue list \<Rightarrow> issues" where
  "route_issues_only found =
     \<lparr>i_routes = found, i_templates = [], i_database = [NoDatabase], i_code = [],
      i_security = [], i_performance = []\<rparr>"

definition show_issues :: "issue list" where
  "show_issues = [MissingReturn shop_app ''show'' 5, UnspecifiedMethods shop_app ''/show'' None]"

section \<open>The detector\<close>

text \<open>
  The project tree as \<open>os.walk\<close> sees it: a directory lists its files, with their
  content, and its subdirectories, in the order of the listing. Every file can be read.
\<close>

datatype dir = Dir "(string \<times> string) list" "(string \<times> dir) list"

text \<open>The seven lists that \<open>_find_flask_files\<close> fills.\<close>

record file_sets =
  l_app_files :: "path list"
  l_blueprint_files :: "path list"
  l_template_dirs :: "path list"
  l_static_dirs :: "path list"
  l_model_files :: "path list"
  l_route_files :: "path list"
  l_config_files :: "path list"

text \<open>An application instance or a factory function: file, name, line.\<close>

record entry =
  en_file :: path
  en_name :: string
  en_line :: nat

text \<open>
  The dictionary \<open>detected_structure\<close>: a key that is not set is \<open>None\<close>. \<open>s_map\<close> holds
  what \<open>_build_structure_map\<close> writes, the project path and the seven lists.
\<close>

record project_model =
  s_pattern :: "string option"
  s_factory_function :: "entry option"
  s_app_instance :: "entry option"
  s_database :: "(string \<times> path option) option"
  s_auth :: "(string \<times> path option) option"
  s_map :: "(path \<times> file_sets) option"

record detector =
  d_project_path :: path
  d_lists :: file_sets
  d_app_instances :: "entry list"
  d_factory_functions :: "entry list"
  d_structure :: project_model
  d_db_type :: "string option"
  d_auth_system :: "string option"

definition no_files :: file_sets where
  "no_files = \<lparr>l_app_files = [], l_blueprint_files = [], l_template_dirs = [], l_static_dirs = [],
                l_model_files = [], l_route_files = [], l_config_files = []\<rparr>"

text \<open>\<open>FlaskProjectDetector.__init__\<close>\<close>

definition new_detector :: "path \<Rightarrow> detector" where
  "new_detector project_path =
     \<lparr>d_project_path = project_path, d_lists = no_files, d_app_instances = [],
      d_factory_functions = [],
      d_structure = \<lparr>s_pattern = None, s_factory_function = None, s_app_instance = None,
                      s_database = None, s_auth = None, s_map = None\<rparr>,
      d_db_type = None, d_auth_system = None\<rparr>"

subsection \<open>Finding the files\<close>

definition ignore_dirs :: "string list" where
  "ignore_dirs = [''.git'', ''.github'', ''venv'', ''env'', ''.venv'', ''.env'',
                  ''__pycache__'', ''node_modules'', ''migrations'', ''tests'']"

text \<open>What an \<open>append\<close> under an \<open>if\<close> adds to a list.\<close>

definition one_if :: "bool \<Rightarrow> 'a \<Rightarrow> 'a list" where
  "one_if condition x = (if condition then [x] else [])"

text \<open>
  What the loop over the files of a directory does with one Python file: a file with an
  import of Flask is appended to \<open>app_files\<close>, and to each of the four other lists whose
  condition its content meets.
\<close>

definition classify :: "path \<Rightarrow> string \<Rightarrow> file_sets \<Rightarrow> file_sets" where
  "classify file_path content l =
     (if contains ''import Flask'' content \<or> contains ''from flask import'' content
      then
        l\<lparr>l_app_files := l_app_files l @ [file_path],
          l_blueprint_files := l_blueprint_files l @
            one_if (contains ''Blueprint('' content \<or> contains ''Blueprint ('' content) file_path,
          l_route_files := l_route_files l @
            one_if (contains ''@app.route'' content \<or> contains ''@blueprint.route'' content
                  \<or> contains ''.route('' content) file_path,
          l_model_files := l_model_files l @
            one_if (contains ''db.Model'' content \<or> contains ''SQLAlchemy'' content) file_path,
          l_config_files := l_config_files l @
            one_if (contains ''app.config'' content \<or> contains ''Config'' content) file_path\<rparr>
      else l)"

fun scan_files :: "path \<Rightarrow> (string \<times> string) list \<Rightarrow> file_sets \<Rightarrow> file_sets" where
  "scan_files here [] l = l"
| "scan_files here ((file, content) # files) l =
     scan_files here files
       (if endswith file ''.py'' then classify (here @ [file]) content l else l)"

text \<open>
  One step of \<open>os.walk\<close>, top down: the files of the directory, then the \<open>templates\<close> and
  \<open>static\<close> directories among the subdirectories that are not ignored, then those
  subdirectories, in order.
\<close>

definition note_dirs :: "path \<Rightarrow> string list \<Rightarrow> file_sets \<Rightarrow> file_sets" where
  "note_dirs here dirs l =
     l\<lparr>l_template_dirs := l_template_dirs l @
         one_if (''templates'' \<in> set dirs) (here @ [''templates'']),
       l_static_dirs := l_static_dirs l @ one_if (''static'' \<in> set dirs) (here @ [''static''])\<rparr>"

fun find_in_dir :: "path \<Rightarrow> dir \<Rightarrow> file_sets \<Rightarrow> file_sets"
  and find_in_subdirs :: "path \<Rightarrow> (string \<times> dir) list \<Rightarrow> file_sets \<Rightarrow> file_sets" where
  "find_in_dir here (Dir files subdirs) l =
     find_in_subdirs here subdirs
       (note_dirs here (filter (\<lambda>d. d \<notin> set ignore_dirs) (map fst subdirs))
          (scan_files here files l))"
| "find_in_subdirs here [] l = l"
| "find_in_subdirs here ((d, sub) # subdirs) l =
     find_in_subdirs here subdirs
       (if d \<in> set ignore_dirs then l else find_in_dir (here @ [d]) sub l)"

definition find_flask_files :: "dir \<Rightarrow> detector \<Rightarrow> detector" where
  "find_flask_files tree d = d\<lparr>d_lists := find_in_dir (d_project_path d) tree (d_lists d)\<rparr>"

text \<open>Reading a file of the tree by its path.\<close>

fun lookup_file :: "dir \<Rightarrow> path \<Rightarrow> string option" where
  "lookup_file (Dir files subdirs) [] = None"
| "lookup_file (Dir files subdirs) [file] = map_of files file"
| "lookup_file (Dir files subdirs) (d # rest) =
     (case map_of subdirs d of None \<Rightarrow> None | Some sub \<Rightarrow> lookup_file sub rest)"

definition files_of :: "path \<Rightarrow> dir \<Rightarrow> files" where
  "files_of here tree =
     (\<lambda>file_path. if prefix here file_path then lookup_file tree (drop (length here) file_path)
                  else None)"

subsection \<open>Application instances and factory functions\<close>

text \<open>\<open>_is_flask_instance\<close>, on the function of the call.\<close>

fun is_flask_func :: "pynode \<Rightarrow> bool" where
  "is_flask_func (Name ident) = (ident = ''Flask'')"
| "is_flask_func (Attribute v attr) = (attr = ''Flask'')"
| "is_flask_func n = False"

fun target_names :: "pynode list \<Rightarrow> string list" where
  "target_names [] = []"
| "target_names (Name ident # targets) = ident # target_names targets"
| "target_names (n # targets) = target_names targets"

fun instances_of :: "path \<Rightarrow> pynode \<Rightarrow> entry list" where
  "instances_of file_path (Assign lineno targets (Call func args)) =
     (if is_flask_func func
      then map (\<lambda>ident. \<lparr>en_file = file_path, en_name = ident, en_line = lineno\<rparr>)
             (target_names targets)
      else [])"
| "instances_of file_path n = []"

definition factory_names :: "string list" where
  "factory_names = [''create_app'', ''make_app'', ''get_app'', ''setup_app'', ''init_app'']"

text \<open>\<open>_is_factory_function\<close>: by the name, or by the text of the lines of the function.\<close>

definition is_factory_function :: "string \<Rightarrow> nat \<Rightarrow> nat \<Rightarrow> string \<Rightarrow> bool" where
  "is_factory_function name lineno end_lineno content =
     (if name \<in> set factory_names then True
      else
        let function_body = join_lines
              (take (end_lineno - (lineno - 1)) (drop (lineno - 1) (split_lines content)))
        in contains ''Flask('' function_body \<and> contains ''return'' function_body)"

fun factories_of :: "path \<Rightarrow> string \<Rightarrow> pynode \<Rightarrow> entry list" where
  "factories_of file_path content (FunctionDef name lineno end_lineno args body decorator_list) =
     (if is_factory_function name lineno end_lineno content
      then [\<lparr>en_file = file_path, en_name = name, en_line = lineno\<rparr>] else [])"
| "factories_of file_path content n = []"

text \<open>
  What one application file adds to \<open>app_instances\<close> and to \<open>factory_functions\<close>; nothing
  when it cannot be read or parsed.
\<close>

definition instances_in :: "(string \<Rightarrow> pynode option) \<Rightarrow> files \<Rightarrow> path \<Rightarrow> entry list" where
  "instances_in parse fs file_path =
     (case fs file_path of
        None \<Rightarrow> []
      | Some content \<Rightarrow>
          (case parse content of
             None \<Rightarrow> []
           | Some tree \<Rightarrow> concat (map (instances_of file_path) (walk tree))))"

definition factories_in :: "(string \<Rightarrow> pynode option) \<Rightarrow> files \<Rightarrow> path \<Rightarrow> entry list" where
  "factories_in parse fs file_path =
     (case fs file_path of
        None \<Rightarrow> []
      | Some content \<Rightarrow>
          (case parse content of
             None \<Rightarrow> []
           | Some tree \<Rightarrow> concat (map (factories_of file_path content) (walk tree))))"

fun analyze_files :: "(string \<Rightarrow> pynode option) \<Rightarrow> files \<Rightarrow> path list \<Rightarrow> detector \<Rightarrow> detector" where
  "analyze_files parse fs [] d = d"
| "analyze_files parse fs (file_path # rest) d =
     analyze_files parse fs rest
       (d\<lparr>d_app_instances := d_app_instances d @ instances_in parse fs file_path,
          d_factory_functions := d_factory_functions d @ factories_in parse fs file_path\<rparr>)"

definition analyze_app_files :: "(string \<Rightarrow> pynode option) \<Rightarrow> files \<Rightarrow> detector \<Rightarrow> detector" where
  "analyze_app_files parse fs d = analyze_files parse fs (l_app_files (d_lists d)) d"

subsection \<open>The pattern\<close>

text \<open>\<open>_detect_project_pattern\<close>\<close>

definition detect_project_pattern :: "detector \<Rightarrow> detector" where
  "detect_project_pattern d =
     (case d_factory_functions d of
        factory # others \<Rightarrow>
          d\<lparr>d_structure := (d_structure d)
              \<lparr>s_pattern := Some ''factory'', s_factory_function := Some factory\<rparr>\<rparr>
      | [] \<Rightarrow>
          (case d_app_instances d of
             app_instance # others \<Rightarrow>
               d\<lparr>d_structure := (d_structure d)
                   \<lparr>s_pattern := Some (if l_blueprint_files (d_lists d) \<noteq> [] then ''modular''
                                       else ''monolithic''),
                    s_app_instance := Some app_instance\<rparr>\<rparr>
           | [] \<Rightarrow> d\<lparr>d_structure := (d_structure d)\<lparr>s_pattern := Some ''unknown''\<rparr>\<rparr>))"

subsection \<open>The database and the authentication\<close>

text \<open>
  The tables of markers. Every marker is a regular expression without operators but the
  escaped dot of \<open>\.db\<close> and the escaped characters of \<open>session\[\<close> and \<open>session\.\<close>, so
  \<open>re.search\<close> looks for the literal text.
\<close>

definition db_patterns :: "(string \<times> string list) list" where
  "db_patterns =
     [(''sqlite'', [''sqlite://'', ''sqlite:///'', ''.db'']),
      (''postgresql'', [''postgresql://'', ''postgres://'', ''psycopg2'']),
      (''mysql'', [''mysql://'', ''pymysql'', ''mysqlclient'']),
      (''mongodb'', [''mongodb://'', ''pymongo'', ''MongoEngine''])]"

definition auth_patterns :: "(string \<times> string list) list" where
  "auth_patterns =
     [(''flask_login'', [''flask_login'', ''LoginManager'', ''current_user'']),
      (''jwt'', [''jwt'', ''JWT'', ''JWTManager'', ''create_access_token'']),
      (''oauth'', [''oauth'', ''OAuth'', ''OAuthlib'']),
      (''session'', [''session['', ''session.''])]"

text \<open>The three loops, innermost first; each ends at the first marker found.\<close>

fun any_marker :: "string list \<Rightarrow> string \<Rightarrow> bool" where
  "any_marker [] content = False"
| "any_marker (pattern # patterns) content =
     (if contains pattern content then True else any_marker patterns content)"

fun first_kind :: "(string \<times> string list) list \<Rightarrow> string \<Rightarrow> string option" where
  "first_kind [] content = None"
| "first_kind ((kind, patterns) # table) content =
     (if any_marker patterns content then Some kind else first_kind table content)"

fun first_match :: "(string \<times> string list) list \<Rightarrow> files \<Rightarrow> path list \<Rightarrow> (string \<times> path) option" where
  "first_match table fs [] = None"
| "first_match table fs (file_path # rest) =
     (case fs file_path of
        None \<Rightarrow> first_match table fs rest
      | Some content \<Rightarrow>
          (case first_kind table content of
             Some kind \<Rightarrow> Some (kind, file_path)
           | None \<Rightarrow> first_match table fs rest))"

text \<open>\<open>_detect_database\<close>\<close>

definition detect_database :: "files \<Rightarrow> detector \<Rightarrow> detector" where
  "detect_database fs d =
     (case first_match db_patterns fs (l_app_files (d_lists d) @ l_config_files (d_lists d)) of
        Some (db_type, file_path) \<Rightarrow>
          d\<lparr>d_db_type := Some db_type,
            d_structure := (d_structure d)\<lparr>s_database := Some (db_type, Some file_path)\<rparr>\<rparr>
      | None \<Rightarrow>
          (case l_model_files (d_lists d) of
             model_file # others \<Rightarrow>
               d\<lparr>d_db_type := Some ''unknown_sql'',
                 d_structure := (d_structure d)\<lparr>s_database := Some (''unknown_sql'', Some model_file)\<rparr>\<rparr>
           | [] \<Rightarrow> d\<lparr>d_structure := (d_structure d)\<lparr>s_database := Some (''none'', None)\<rparr>\<rparr>))"

text \<open>\<open>_detect_auth_system\<close>\<close>

definition detect_auth_system :: "files \<Rightarrow> detector \<Rightarrow> detector" where
  "detect_auth_system fs d =
     (case first_match auth_patterns fs (l_app_files (d_lists d)) of
        Some (auth_type, file_path) \<Rightarrow>
          d\<lparr>d_auth_system := Some auth_type,
            d_structure := (d_structure d)\<lparr>s_auth := Some (auth_type, Some file_path)\<rparr>\<rparr>
      | None \<Rightarrow> d\<lparr>d_structure := (d_structure d)\<lparr>s_auth := Some (''none'', None)\<rparr>\<rparr>)"

text \<open>\<open>_build_structure_map\<close>\<close>

definition build_structure_map :: "detector \<Rightarrow> detector" where
  "build_structure_map d =
     d\<lparr>d_structure := (d_structure d)\<lparr>s_map := Some (d_project_path d, d_lists d)\<rparr>\<rparr>"

text \<open>\<open>detect\<close>, on the detector it is called on; the result is \<open>d_structure\<close>.\<close>

definition detect :: "(string \<Rightarrow> pynode option) \<Rightarrow> dir \<Rightarrow> detector \<Rightarrow> detector" where
  "detect parse tree d =
     (let fs = files_of (d_project_path d) tree;
          d1 = find_flask_files tree d;
          d2 = analyze_app_files parse fs d1;
          d3 = detect_project_pattern d2;
          d4 = detect_database fs d3;
          d5 = detect_auth_system fs d4
      in build_structure_map d5)"

subsection \<open>A second call of \<open>detect\<close>\<close>

text \<open>Two collections of lists, each list of the first followed by the same list of the second.\<close>

definition append_sets :: "file_sets \<Rightarrow> file_sets \<Rightarrow> file_sets" where
  "append_sets a b =
     \<lparr>l_app_files = l_app_files a @ l_app_files b,
      l_blueprint_files = l_blueprint_files a @ l_blueprint_files b,
      l_template_dirs = l_template_dirs a @ l_template_dirs b,
      l_static_dirs = l_static_dirs a @ l_static_dirs b,
      l_model_files = l_model_files a @ l_model_files b,
      l_route_files = l_route_files a @ l_route_files b,
      l_config_files = l_config_files a @ l_config_files b\<rparr>"



subsection \<open>An example\<close>

text \<open>
  A detector that has found two application files, the second one also a configuration
  file; only the second one names a database.
\<close>

definition two_files :: files where
  "two_files = [[''srv'', ''shop'', ''app.py''] \<mapsto> ''from flask import Flask'',
                [''srv'', ''shop'', ''config.py''] \<mapsto> ''URI = \"mysql://sqlite://\"'']"

definition two_files_detector :: detector where
  "two_files_detector =
     (new_detector [''srv'', ''shop''])
       \<lparr>d_lists := no_files
          \<lparr>l_app_files := [[''srv'', ''shop'', ''app.py''], [''srv'', ''shop'', ''config.py'']],
           l_config_files := [[''srv'', ''shop'', ''config.py'']]\<rparr>\<rparr>"

section \<open>What the text primitives and the matcher compute\<close>

lemma startswith_iff: "startswith s p \<longleftrightarrow> (\<exists>post. s = p @ post)"
  by (induction s p rule: startswith.induct) auto

lemma contains_iff: "contains sub s \<longleftrightarrow> (\<exists>pre post. s = pre @ sub @ post)"
proof (induction s)
  case Nil
  then show ?case by auto
next
  case (Cons c cs)
  show ?case
  proof
    assume "contains sub (c # cs)"
    then consider "startswith (c # cs) sub" | "contains sub cs" by auto
    then show "\<exists>pre post. c # cs = pre @ sub @ post"
    proof cases
      case 1
      then obtain post where "c # cs = sub @ post" by (auto simp: startswith_iff)
      then have "c # cs = [] @ sub @ post" by simp
      then show ?thesis by blast
    next
      case 2
      with Cons.IH obtain pre post where "cs = pre @ sub @ post" by auto
      then have "c # cs = (c # pre) @ sub @ post" by simp
      then show ?thesis by blast
    qed
  next
    assume "\<exists>pre post. c # cs = pre @ sub @ post"
    then obtain pre post where eq: "c # cs = pre @ sub @ post" by auto
    show "contains sub (c # cs)"
    proof (cases pre)
      case Nil
      with eq have "startswith (c # cs) sub" by (auto simp: startswith_iff)
      then show ?thesis by simp
    next
      case (Cons a pre')
      with eq have "cs = pre' @ sub @ post" by simp
      with Cons.IH have "contains sub cs" by blast
      then show ?thesis by simp
    qed
  qed
qed

text \<open>
  The matcher is sound and complete for the texts that the elements of a pattern stand
  for: a match splits the input into one text per element, and an input that starts with
  such texts is matched.
\<close>

lemma take_takeWhile_all: "j \<le> length (takeWhile P s) \<Longrightarrow> list_all P (take j s)"
proof (induction s arbitrary: j)
  case Nil then show ?case by simp
next
  case (Cons c cs)
  then show ?case by (cases j) (auto split: if_splits)
qed

lemma length_takeWhile_append: "list_all P p \<Longrightarrow> length p \<le> length (takeWhile P (p @ rest))"
  by (induction p) auto

lemma startswith_ci_take:
  "startswith_ci s t \<Longrightarrow> startswith_ci (take (length t) s) t \<and> length t \<le> length s"
  by (induction s t rule: startswith_ci.induct) (auto split: if_splits)

lemma startswith_ci_append:
  "startswith_ci p t \<Longrightarrow> startswith_ci (p @ rest) t"
  by (induction p t rule: startswith_ci.induct) (auto split: if_splits)

lemma greedy_sound:
  "greedy k s n m = Some (ps, r) \<Longrightarrow>
   \<exists>j ps'. n \<le> j \<and> j \<le> m \<and> ps = take j s # ps' \<and> k (drop j s) = Some (ps', r)"
proof (induction m)
  case 0
  then show ?case by (auto split: if_splits option.splits)
next
  case (Suc m)
  show ?case
  proof (cases "k (drop (Suc m) s)")
    case None
    with Suc.prems have "greedy k s n m = Some (ps, r)" by (auto split: if_splits)
    from Suc.IH [OF this] obtain j ps' where "n \<le> j" "j \<le> m" "ps = take j s # ps'"
      "k (drop j s) = Some (ps', r)" by blast
    then show ?thesis by (intro exI [of _ j] exI [of _ ps']) simp
  next
    case (Some res)
    obtain ps' r' where res: "res = (ps', r')" by (cases res)
    with Some Suc.prems have "n \<le> Suc m" "ps = take (Suc m) s # ps'" "r' = r"
      by (auto split: if_splits)
    with Some res show ?thesis by (intro exI [of _ "Suc m"] exI [of _ ps']) simp
  qed
qed

lemma greedy_complete:
  "n \<le> j \<Longrightarrow> j \<le> m \<Longrightarrow> k (drop j s) \<noteq> None \<Longrightarrow> greedy k s n m \<noteq> None"
proof (induction m)
  case 0
  then show ?case by (auto split: option.splits)
next
  case (Suc m)
  show ?case
  proof (cases "j = Suc m")
    case True
    with Suc.prems show ?thesis by (auto split: option.splits)
  next
    case False
    with Suc.prems have "j \<le> m" by simp
    with Suc have "greedy k s n m \<noteq> None" by simp
    with Suc.prems show ?thesis by (auto split: option.splits)
  qed
qed

lemma step_sound:
  assumes "step a k s = Some (ps, r)"
  shows "\<exists>p ps' rest. ps = p # ps' \<and> matches a p \<and> s = p @ rest \<and> k rest = Some (ps', r)"
proof (cases a)
  case (Lit t)
  with assms show ?thesis
    by (auto simp: startswith_iff split: if_splits option.splits)
next
  case (LitI t)
  with assms have sw: "startswith_ci s t" by (auto split: if_splits)
  with assms LitI obtain ps' where "k (drop (length t) s) = Some (ps', r)"
    and "ps = take (length t) s # ps'" by (auto split: option.splits)
  with startswith_ci_take [OF sw] LitI show ?thesis
    by (intro exI [of _ "take (length t) s"] exI [of _ ps'] exI [of _ "drop (length t) s"]) simp
next
  case (Many P n)
  with assms have "greedy k s n (length (takeWhile P s)) = Some (ps, r)" by simp
  from greedy_sound [OF this] obtain j ps' where j: "n \<le> j" "j \<le> length (takeWhile P s)"
    and ps: "ps = take j s # ps'" and k: "k (drop j s) = Some (ps', r)" by blast
  have "j \<le> length s" using j(2) length_takeWhile_le [of P s] by simp
  with j take_takeWhile_all [OF j(2)] ps k Many show ?thesis
    by (intro exI [of _ "take j s"] exI [of _ ps'] exI [of _ "drop j s"]) simp
next
  case (One P)
  with assms show ?thesis
    by (cases s) (auto split: if_splits option.splits)
next
  case (OptLit t)
  with assms show ?thesis
    by (auto simp: startswith_iff split: if_splits option.splits)
qed

lemma rmatch_sound:
  "rmatch rx s = Some (ps, r) \<Longrightarrow> list_all2 matches rx ps \<and> s = concat ps @ r"
proof (induction rx arbitrary: s ps r)
  case Nil
  then show ?case by simp
next
  case (Cons a rx)
  then have "step a (rmatch rx) s = Some (ps, r)" by simp
  from step_sound [OF this] obtain p ps' rest where "ps = p # ps'" "matches a p" "s = p @ rest"
    "rmatch rx rest = Some (ps', r)" by blast
  with Cons.IH [of rest ps' r] show ?case by simp
qed

lemma step_complete:
  assumes "matches a p" and "k rest \<noteq> None"
  shows "step a k (p @ rest) \<noteq> None"
proof (cases a)
  case (Lit t)
  with assms show ?thesis by (auto simp: startswith_iff split: option.splits)
next
  case (LitI t)
  with assms show ?thesis by (auto simp: startswith_ci_append split: option.splits)
next
  case (Many P n)
  with assms have "n \<le> length p" "list_all P p" by simp_all
  with greedy_complete [of n "length p" "length (takeWhile P (p @ rest))" k "p @ rest"] assms(2)
    length_takeWhile_append [of P p rest] Many
  show ?thesis by simp
next
  case (One P)
  with assms show ?thesis by (cases p) (auto split: option.splits)
next
  case (OptLit t)
  with assms show ?thesis by (auto simp: startswith_iff split: option.splits)
qed

lemma rmatch_complete:
  "list_all2 matches rx ps \<Longrightarrow> rmatch rx (concat ps @ r) \<noteq> None"
proof (induction rx arbitrary: ps)
  case Nil
  then show ?case by simp
next
  case (Cons a rx)
  then obtain p ps' where ps: "ps = p # ps'" and m: "matches a p" and rest: "list_all2 matches rx ps'"
    by (auto simp: list_all2_Cons1)
  from Cons.IH [OF rest] have "rmatch rx (concat ps' @ r) \<noteq> None" .
  from step_complete [of a p "rmatch rx" "concat ps' @ r", OF m this] ps show ?case by simp
qed

lemma rsearch_iff: "rsearch rx s \<longleftrightarrow> (\<exists>i\<le>length s. rmatch rx (drop i s) \<noteq> None)"
proof (induction s)
  case Nil
  then show ?case by simp
next
  case (Cons c cs)
  show ?case
  proof
    assume "rsearch rx (c # cs)"
    then consider "rmatch rx (c # cs) \<noteq> None" | "rsearch rx cs" by auto
    then show "\<exists>i\<le>length (c # cs). rmatch rx (drop i (c # cs)) \<noteq> None"
    proof cases
      case 1
      then show ?thesis by (intro exI [of _ 0]) simp
    next
      case 2
      with Cons obtain i where "i \<le> length cs" "rmatch rx (drop i cs) \<noteq> None" by auto
      then show ?thesis by (intro exI [of _ "Suc i"]) simp
    qed
  next
    assume "\<exists>i\<le>length (c # cs). rmatch rx (drop i (c # cs)) \<noteq> None"
    then obtain i where i: "i \<le> length (c # cs)" "rmatch rx (drop i (c # cs)) \<noteq> None" by auto
    show "rsearch rx (c # cs)"
    proof (cases i)
      case 0
      with i show ?thesis by simp
    next
      case (Suc j)
      with i have "j \<le> length cs" "rmatch rx (drop j cs) \<noteq> None" by simp_all
      with Cons show ?thesis by auto
    qed
  qed
qed

text \<open>A search succeeds exactly when a text that the pattern stands for occurs in the input.\<close>

lemma rsearch_sublist:
  "rsearch rx s \<longleftrightarrow> (\<exists>ps. list_all2 matches rx ps \<and> sublist (concat ps) s)"
proof
  assume "rsearch rx s"
  then obtain i where "i \<le> length s" and "rmatch rx (drop i s) \<noteq> None"
    by (auto simp: rsearch_iff)
  then obtain ps r where "rmatch rx (drop i s) = Some (ps, r)" by auto
  from rmatch_sound [OF this] have m: "list_all2 matches rx ps" and d: "drop i s = concat ps @ r"
    by simp_all
  have "s = take i s @ concat ps @ r" using d append_take_drop_id [of i s] by simp
  then have "sublist (concat ps) s" unfolding sublist_def by blast
  with m show "\<exists>ps. list_all2 matches rx ps \<and> sublist (concat ps) s" by blast
next
  assume "\<exists>ps. list_all2 matches rx ps \<and> sublist (concat ps) s"
  then obtain ps pre post where m: "list_all2 matches rx ps" and s: "s = pre @ concat ps @ post"
    by (auto simp: sublist_def)
  from rmatch_complete [OF m, of post] s have "rmatch rx (drop (length pre) s) \<noteq> None" by simp
  moreover have "length pre \<le> length s" using s by simp
  ultimately show "rsearch rx s" unfolding rsearch_iff by blast
qed



section \<open>Duplicated routes\<close>

lemma duplicate_routes_filter:
  "filter (\<lambda>i. issue_type i = ''duplicate_route'' \<and> issue_path i = Some p) (duplicate_routes seen rs)
   = map duplicate_issue
       (if p \<in> set seen then filter (\<lambda>r. r_path r = p) rs else tl (filter (\<lambda>r. r_path r = p) rs))"
  by (induction rs arbitrary: seen) (auto simp: duplicate_issue_def)

lemma missing_return_of_type: "i \<in> set (missing_return_of f n) \<Longrightarrow> issue_type i = ''missing_return''"
  by (cases n) (auto split: if_splits)

lemma missing_returns_in_type:
  "i \<in> set (missing_returns_in parse fs f) \<Longrightarrow> issue_type i = ''missing_return''"
  by (auto simp: missing_returns_in_def split: option.splits dest: missing_return_of_type)

lemma missing_returns_no_duplicates:
  "filter (\<lambda>i. issue_type i = ''duplicate_route'' \<and> Q i) (concat (map (missing_returns_in parse fs) fl)) = []"
  by (auto simp: filter_empty_conv dest: missing_returns_in_type)

lemma unspecified_no_duplicates:
  "filter (\<lambda>i. issue_type i = ''duplicate_route'' \<and> Q i) (unspecified_methods rs) = []"
  by (auto simp: filter_empty_conv unspecified_methods_def)

text \<open>
  C2. For every list of extracted routes and every path \<open>p\<close>, the \<open>duplicate_route\<close>
  issues that \<open>_diagnose_routes\<close> reports for \<open>p\<close> are exactly the issues of the routes
  with path \<open>p\<close> after the first one, in extraction order: when \<open>p\<close> occurs \<open>k + 1\<close> times
  there are \<open>k\<close> of them, and each has severity high.
\<close>

theorem diagnose_duplicate_routes:
  "filter (\<lambda>i. issue_type i = ''duplicate_route'' \<and> issue_path i = Some p)
     (diagnose_routes parse fs route_files routes)
   = map duplicate_issue (tl (filter (\<lambda>r. r_path r = p) routes))
   \<and> length (filter (\<lambda>i. issue_type i = ''duplicate_route'' \<and> issue_path i = Some p)
        (diagnose_routes parse fs route_files routes))
     = length (filter (\<lambda>r. r_path r = p) routes) - 1
   \<and> list_all (\<lambda>i. severity i = ''high'')
        (filter (\<lambda>i. issue_type i = ''duplicate_route'' \<and> issue_path i = Some p)
           (diagnose_routes parse fs route_files routes))"
proof -
  let ?D = "filter (\<lambda>i. issue_type i = ''duplicate_route'' \<and> issue_path i = Some p)
     (diagnose_routes parse fs route_files routes)"
  have eq: "?D = map duplicate_issue (tl (filter (\<lambda>r. r_path r = p) routes))"
    unfolding diagnose_routes_def filter_append
    by (simp only: missing_returns_no_duplicates unspecified_no_duplicates
        duplicate_routes_filter) simp
  have len: "length ?D = length (filter (\<lambda>r. r_path r = p) routes) - 1"
    by (simp only: eq length_map length_tl)
  have sev: "list_all (\<lambda>i. severity i = ''high'') ?D"
    by (simp only: eq) (simp add: list_all_iff duplicate_issue_def)
  from eq len sev show ?thesis by blast
qed

text \<open>
  The scenario of the specification: two routes declared with the path \<open>/users\<close>, in two
  files; the one \<open>duplicate_route\<close> issue names the second declaration.
\<close>

theorem diagnose_duplicate_routes_witness:
  "filter (\<lambda>i. issue_type i = ''duplicate_route'' \<and> issue_path i = Some ''/users'')
     (diagnose_routes (\<lambda>content. None) Map.empty []
        [\<lparr>r_file = [''app'', ''a.py''], r_app_or_blueprint = ''app'', r_path = ''/users'',
          r_methods = None, r_function = Some ''list_users''\<rparr>,
         \<lparr>r_file = [''app'', ''b.py''], r_app_or_blueprint = ''bp'', r_path = ''/users'',
          r_methods = None, r_function = Some ''users''\<rparr>])
   = [DuplicateRoute [''app'', ''b.py''] ''/users'' (Some ''users'')]"
  using diagnose_duplicate_routes [of "''/users''" "\<lambda>content. None" Map.empty "[]"
      "[\<lparr>r_file = [''app'', ''a.py''], r_app_or_blueprint = ''app'', r_path = ''/users'',
          r_methods = None, r_function = Some ''list_users''\<rparr>,
        \<lparr>r_file = [''app'', ''b.py''], r_app_or_blueprint = ''bp'', r_path = ''/users'',
          r_methods = None, r_function = Some ''users''\<rparr>]"]
  by (simp add: duplicate_issue_def)

section \<open>Unclosed template blocks\<close>

lemma unclosed_in_template:
  "UnclosedBlock rel b \<in> set (case fs (t_path t) of None \<Rightarrow> []
        | Some content \<Rightarrow> unclosed_blocks t content @ invalid_url_fors routes t content) \<longleftrightarrow>
   (\<exists>content. t_relative_path t = rel \<and> fs (t_path t) = Some content \<and>
       b \<in> set (findall_blocks content) \<and> \<not> rsearch (endblock_rx b) content)"
  by (cases "fs (t_path t)") (auto simp: unclosed_blocks_def invalid_url_fors_def)

lemma unclosed_in_diagnose:
  "UnclosedBlock rel b \<in> set (diagnose_templates fs templates refs routes) \<longleftrightarrow>
   (\<exists>t \<in> set templates. UnclosedBlock rel b \<in> set (case fs (t_path t) of None \<Rightarrow> []
        | Some content \<Rightarrow> unclosed_blocks t content @ invalid_url_fors routes t content))"
  by (auto simp: diagnose_templates_def)

lemma endblock_tag_iff:
  "endblock_tag b tag \<longleftrightarrow> (\<exists>ps. list_all2 matches (endblock_rx b) ps \<and> tag = concat ps)"
proof
  assume "endblock_tag b tag"
  then obtain w1 w2 w3 where w: "list_all is_space w1" "list_all is_space w2" "list_all is_space w3"
    and tag: "tag = ''{%'' @ w1 @ ''endblock'' @ w2 @ w3 @ ''%}'' \<or>
              tag = ''{%'' @ w1 @ ''endblock'' @ w2 @ b @ w3 @ ''%}''"
    unfolding endblock_tag_def by blast
  from tag show "\<exists>ps. list_all2 matches (endblock_rx b) ps \<and> tag = concat ps"
  proof
    assume "tag = ''{%'' @ w1 @ ''endblock'' @ w2 @ w3 @ ''%}''"
    with w show ?thesis
      by (intro exI [of _ "[''{%'', w1, ''endblock'', w2, [], w3, ''%}'']"])
        (simp add: endblock_rx_def)
  next
    assume "tag = ''{%'' @ w1 @ ''endblock'' @ w2 @ b @ w3 @ ''%}''"
    with w show ?thesis
      by (intro exI [of _ "[''{%'', w1, ''endblock'', w2, b, w3, ''%}'']"])
        (simp add: endblock_rx_def)
  qed
next
  assume "\<exists>ps. list_all2 matches (endblock_rx b) ps \<and> tag = concat ps"
  then obtain ps where m: "list_all2 matches (endblock_rx b) ps" and tag: "tag = concat ps" by blast
  from m obtain w1 w2 x w3 where ps: "ps = [''{%'', w1, ''endblock'', w2, x, w3, ''%}'']"
    and w: "list_all is_space w1" "list_all is_space w2" "list_all is_space w3"
    and x: "x = [] \<or> x = b"
    by (auto simp: endblock_rx_def list_all2_Cons1)
  from x tag ps have "tag = ''{%'' @ w1 @ ''endblock'' @ w2 @ w3 @ ''%}'' \<or>
              tag = ''{%'' @ w1 @ ''endblock'' @ w2 @ b @ w3 @ ''%}''" by auto
  with w show "endblock_tag b tag" unfolding endblock_tag_def by blast
qed

text \<open>
  The search of the diagnostic for a closing tag succeeds exactly when a closing tag for
  the block occurs somewhere in the content.
\<close>

lemma rsearch_endblock:
  "rsearch (endblock_rx b) content \<longleftrightarrow> (\<exists>tag. endblock_tag b tag \<and> sublist tag content)"
  unfolding rsearch_sublist endblock_tag_iff by blast

lemma block_rx_shape:
  "list_all2 matches block_rx ps \<longleftrightarrow>
   (\<exists>w1 w2 b w3. ps = [''{%'', w1, ''block'', w2, b, w3, ''%}''] \<and>
      list_all is_space w1 \<and> w2 \<noteq> [] \<and> list_all is_space w2 \<and>
      b \<noteq> [] \<and> list_all is_word b \<and> list_all is_space w3)"
  by (auto simp: block_rx_def list_all2_Cons1 Suc_le_eq)

lemma block_tag_iff:
  "block_tag b tag \<longleftrightarrow> (\<exists>ps. list_all2 matches block_rx ps \<and> tag = concat ps \<and> ps ! 4 = b)"
proof
  assume "block_tag b tag"
  then obtain w1 w2 w3 where tag: "tag = ''{%'' @ w1 @ ''block'' @ w2 @ b @ w3 @ ''%}''"
    and w: "list_all is_space w1" "w2 \<noteq> []" "list_all is_space w2" "b \<noteq> []" "list_all is_word b"
      "list_all is_space w3"
    unfolding block_tag_def by blast
  from w have "list_all2 matches block_rx [''{%'', w1, ''block'', w2, b, w3, ''%}'']"
    unfolding block_rx_shape by blast
  with tag show "\<exists>ps. list_all2 matches block_rx ps \<and> tag = concat ps \<and> ps ! 4 = b"
    by (intro exI [of _ "[''{%'', w1, ''block'', w2, b, w3, ''%}'']"]) simp
next
  assume "\<exists>ps. list_all2 matches block_rx ps \<and> tag = concat ps \<and> ps ! 4 = b"
  then obtain ps where m: "list_all2 matches block_rx ps" and tag: "tag = concat ps"
    and b: "ps ! 4 = b" by blast
  from m obtain w1 w2 b' w3 where ps: "ps = [''{%'', w1, ''block'', w2, b', w3, ''%}'']"
    and w: "list_all is_space w1" "w2 \<noteq> []" "list_all is_space w2" "b' \<noteq> []" "list_all is_word b'"
      "list_all is_space w3"
    unfolding block_rx_shape by blast
  from ps b have "b' = b" by simp
  with ps tag have "tag = ''{%'' @ w1 @ ''block'' @ w2 @ b @ w3 @ ''%}''" by simp
  with w \<open>b' = b\<close> show "block_tag b tag" unfolding block_tag_def by blast
qed

text \<open>A run of characters of a class that ends where the class ends is determined.\<close>

lemma takeWhile_run:
  "list_all P u \<Longrightarrow> x = [] \<or> \<not> P (hd x) \<Longrightarrow> takeWhile P (u @ x) = u"
  by (induction u) (auto simp: takeWhile_eq_Nil_iff)

lemma run_unique:
  assumes "u @ x = u' @ x'" and "list_all P u" and "list_all P u'"
    and "x = [] \<or> \<not> P (hd x)" and "x' = [] \<or> \<not> P (hd x')"
  shows "u = u' \<and> x = x'"
proof -
  have "u = takeWhile P (u @ x)" using assms(2,4) by (simp add: takeWhile_run)
  also have "\<dots> = takeWhile P (u' @ x')" using assms(1) by simp
  also have "\<dots> = u'" using assms(3,5) by (simp add: takeWhile_run)
  finally have "u = u'" .
  with assms(1) show ?thesis by simp
qed

lemma space_not_word: "is_space c \<Longrightarrow> \<not> is_word c"
  unfolding is_space_def is_word_def lower_case_def upper_case_def latin1_word_def
  by auto

lemma word_not_space: "is_word c \<Longrightarrow> \<not> is_space c"
  using space_not_word by blast

lemma brace_not_space: "\<not> is_space CHR ''{''" 
  by (simp add: is_space_def)

lemma brace_not_word: "\<not> is_word CHR ''{''" 
  by (simp add: is_word_def lower_case_def upper_case_def latin1_word_def)

lemma percent_not_word: "\<not> is_word CHR ''%''" 
  by (simp add: is_word_def lower_case_def upper_case_def latin1_word_def)

lemma percent_not_space: "\<not> is_space CHR ''%''" 
  by (simp add: is_space_def)

lemma b_not_space: "\<not> is_space CHR ''b''" 
  by (simp add: is_space_def)

text \<open>The name of an opening tag is determined by the text that starts with the tag.\<close>

lemma block_tag_unique:
  assumes "block_tag b tag" and "block_tag b' tag'" and "tag @ post = tag' @ post'"
  shows "b = b'"
proof -
  from assms(1) obtain w1 w2 w3 where tag: "tag = ''{%'' @ w1 @ ''block'' @ w2 @ b @ w3 @ ''%}''"
    and w: "list_all is_space w1" "w2 \<noteq> []" "list_all is_space w2" "b \<noteq> []" "list_all is_word b"
      "list_all is_space w3"
    unfolding block_tag_def by blast
  from assms(2) obtain v1 v2 v3 where tag': "tag' = ''{%'' @ v1 @ ''block'' @ v2 @ b' @ v3 @ ''%}''"
    and v: "list_all is_space v1" "v2 \<noteq> []" "list_all is_space v2" "b' \<noteq> []" "list_all is_word b'"
      "list_all is_space v3"
    unfolding block_tag_def by blast
  from assms(3) tag tag'
  have e1: "w1 @ (''block'' @ w2 @ b @ w3 @ ''%}'' @ post) = v1 @ (''block'' @ v2 @ b' @ v3 @ ''%}'' @ post')"
    by simp
  have "w1 = v1 \<and> ''block'' @ w2 @ b @ w3 @ ''%}'' @ post = ''block'' @ v2 @ b' @ v3 @ ''%}'' @ post'"
    by (rule run_unique [OF e1 w(1) v(1)]) (simp_all add: b_not_space)
  then have e2: "w2 @ (b @ w3 @ ''%}'' @ post) = v2 @ (b' @ v3 @ ''%}'' @ post')" by simp
  have hb: "\<not> is_space (hd (b @ w3 @ ''%}'' @ post))"
    using w(4,5) by (cases b) (simp_all add: word_not_space)
  have hb': "\<not> is_space (hd (b' @ v3 @ ''%}'' @ post'))"
    using v(4,5) by (cases b') (simp_all add: word_not_space)
  have "w2 = v2 \<and> b @ w3 @ ''%}'' @ post = b' @ v3 @ ''%}'' @ post'"
  proof (rule run_unique [OF e2 w(3) v(3)])
    show "b @ w3 @ ''%}'' @ post = [] \<or> \<not> is_space (hd (b @ w3 @ ''%}'' @ post))"
      using hb by simp
    show "b' @ v3 @ ''%}'' @ post' = [] \<or> \<not> is_space (hd (b' @ v3 @ ''%}'' @ post'))"
      using hb' by simp
  qed
  then have e3: "b @ (w3 @ ''%}'' @ post) = b' @ (v3 @ ''%}'' @ post')" by simp
  have hw: "\<not> is_word (hd (w3 @ ''%}'' @ post))"
    using w(6) by (cases w3) (simp_all add: space_not_word percent_not_word)
  have hv: "\<not> is_word (hd (v3 @ ''%}'' @ post'))"
    using v(6) by (cases v3) (simp_all add: space_not_word percent_not_word)
  have "b = b' \<and> w3 @ ''%}'' @ post = v3 @ ''%}'' @ post'"
  proof (rule run_unique [OF e3 w(5) v(5)])
    show "w3 @ ''%}'' @ post = [] \<or> \<not> is_word (hd (w3 @ ''%}'' @ post))"
      using hw by simp
    show "v3 @ ''%}'' @ post' = [] \<or> \<not> is_word (hd (v3 @ ''%}'' @ post'))"
      using hv by simp
  qed
  then show ?thesis by simp
qed

text \<open>Inside an opening tag no other opening tag starts.\<close>

lemma block_tag_no_brace:
  assumes "block_tag b tag"
  shows "CHR ''{'' \<notin> set (tl tag)"
proof -
  from assms obtain w1 w2 w3 where tag: "tag = ''{%'' @ w1 @ ''block'' @ w2 @ b @ w3 @ ''%}''"
    and w: "list_all is_space w1" "list_all is_space w2" "list_all is_word b" "list_all is_space w3"
    unfolding block_tag_def by blast
  have "CHR ''{'' \<notin> set w" if "list_all is_space w" for w
    using that brace_not_space by (auto simp: list_all_iff)
  moreover have "CHR ''{'' \<notin> set b" using w(3) brace_not_word by (auto simp: list_all_iff)
  ultimately show ?thesis using w by (simp add: tag)
qed


text \<open>\<open>finditer\<close> reports matches only, each at its offset.\<close>

lemma finditer_from_sound:
  "(p, ps) \<in> set (finditer_from rx pos skip s) \<Longrightarrow>
   \<exists>i r. p = pos + i \<and> i < length s \<and> rmatch rx (drop i s) = Some (ps, r)"
proof (induction s arbitrary: pos skip)
  case Nil
  then show ?case by simp
next
  case (Cons c cs)
  have rec: "\<exists>i r. p = pos + i \<and> i < length (c # cs) \<and> rmatch rx (drop i (c # cs)) = Some (ps, r)"
    if "(p, ps) \<in> set (finditer_from rx (Suc pos) skip' cs)" for skip'
  proof -
    from Cons.IH [OF that] obtain i r where "p = Suc pos + i" "i < length cs"
      "rmatch rx (drop i cs) = Some (ps, r)" by blast
    then show ?thesis by (intro exI [of _ "Suc i"] exI [of _ r]) simp
  qed
  show ?case
  proof (cases "0 < skip")
    case True
    with Cons.prems have "(p, ps) \<in> set (finditer_from rx (Suc pos) (skip - 1) cs)" by simp
    then show ?thesis by (rule rec)
  next
    case False
    show ?thesis
    proof (cases "rmatch rx (c # cs)")
      case None
      with False Cons.prems have "(p, ps) \<in> set (finditer_from rx (Suc pos) 0 cs)" by simp
      then show ?thesis by (rule rec)
    next
      case (Some res)
      obtain ps0 r0 where res: "res = (ps0, r0)" by (cases res)
      with False Some Cons.prems have "(p, ps) = (pos, ps0) \<or>
         (p, ps) \<in> set (finditer_from rx (Suc pos) (length (concat ps0) - 1) cs)" by simp
      then show ?thesis
      proof
        assume "(p, ps) = (pos, ps0)"
        with Some res show ?thesis by (intro exI [of _ 0] exI [of _ r0]) simp
      next
        assume "(p, ps) \<in> set (finditer_from rx (Suc pos) (length (concat ps0) - 1) cs)"
        then show ?thesis by (rule rec)
      qed
    qed
  qed
qed

text \<open>
  When no match of the pattern starts inside another one, \<open>finditer\<close> reports every
  match.
\<close>

lemma finditer_from_complete:
  assumes inner: "\<And>s ps r j. rmatch rx s = Some (ps, r) \<Longrightarrow> 0 < j \<Longrightarrow> j < length (concat ps) \<Longrightarrow>
                    rmatch rx (drop j s) = None"
  shows "rmatch rx (drop i s) = Some (ps, r) \<Longrightarrow> i < length s \<Longrightarrow> skip \<le> i \<Longrightarrow>
         (pos + i, ps) \<in> set (finditer_from rx pos skip s)"
proof (induction s arbitrary: pos skip i)
  case Nil
  then show ?case by simp
next
  case (Cons c cs)
  show ?case
  proof (cases "0 < skip")
    case True
    with Cons.prems obtain i' where i: "i = Suc i'" by (cases i) auto
    with Cons.prems True have "(Suc pos + i', ps) \<in> set (finditer_from rx (Suc pos) (skip - 1) cs)"
      by (intro Cons.IH) auto
    with True i show ?thesis by simp
  next
    case False
    show ?thesis
    proof (cases i)
      case 0
      with Cons.prems False show ?thesis by simp
    next
      case (Suc i')
      show ?thesis
      proof (cases "rmatch rx (c # cs)")
        case None
        from Cons.prems Suc have "(Suc pos + i', ps) \<in> set (finditer_from rx (Suc pos) 0 cs)"
          by (intro Cons.IH) auto
        with None False Suc show ?thesis by simp
      next
        case (Some res)
        obtain ps0 r0 where res: "res = (ps0, r0)" by (cases res)
        have "length (concat ps0) \<le> i"
        proof (rule ccontr)
          assume "\<not> length (concat ps0) \<le> i"
          with Suc have "0 < i" "i < length (concat ps0)" by simp_all
          from inner [OF Some [unfolded res] this] Cons.prems(1) show False by simp
        qed
        with Suc have "length (concat ps0) - 1 \<le> i'" by simp
        with Cons.prems Suc
        have "(Suc pos + i', ps) \<in> set (finditer_from rx (Suc pos) (length (concat ps0) - 1) cs)"
          by (intro Cons.IH) auto
        with Some res False Suc show ?thesis by simp
      qed
    qed
  qed
qed

lemma block_rx_inner:
  assumes m: "rmatch block_rx s = Some (ps, r)" and j: "0 < j" "j < length (concat ps)"
  shows "rmatch block_rx (drop j s) = None"
proof (rule ccontr)
  assume "rmatch block_rx (drop j s) \<noteq> None"
  then obtain ps' r' where "rmatch block_rx (drop j s) = Some (ps', r')" by auto
  from rmatch_sound [OF this] have "list_all2 matches block_rx ps'" and d: "drop j s = concat ps' @ r'"
    by simp_all
  then obtain rest where "concat ps' = CHR ''{'' # rest" by (auto simp: block_rx_shape)
  with d have dj: "drop j s = CHR ''{'' # rest @ r'" by simp
  from rmatch_sound [OF m] have m': "list_all2 matches block_rx ps" and s: "s = concat ps @ r"
    by simp_all
  from m' have "block_tag (ps ! 4) (concat ps)" unfolding block_tag_iff by blast
  then have nb: "CHR ''{'' \<notin> set (tl (concat ps))" by (rule block_tag_no_brace)
  from j s have "j < length s" by simp
  then have "s ! j = hd (drop j s)" by (simp add: hd_drop_conv_nth)
  with dj have "s ! j = CHR ''{''" by simp
  moreover from s j have "s ! j = concat ps ! j" by (simp add: nth_append)
  moreover from j have "concat ps ! j \<in> set (tl (concat ps))"
    by (cases "concat ps") (auto simp: nth_Cons')
  ultimately show False using nb by simp
qed

text \<open>
  The names that the diagnostic collects from a template are the names of the opening
  tags that occur in it.
\<close>

lemma findall_blocks_iff:
  "b \<in> set (findall_blocks content) \<longleftrightarrow> (\<exists>tag. block_tag b tag \<and> sublist tag content)"
proof
  assume "b \<in> set (findall_blocks content)"
  then obtain p ps where in_it: "(p, ps) \<in> set (finditer_from block_rx 0 0 content)" and b: "b = ps ! 4"
    by (auto simp: findall_blocks_def finditer_def)
  from finditer_from_sound [OF in_it] obtain i r where "i < length content"
    and m: "rmatch block_rx (drop i content) = Some (ps, r)" by blast
  from rmatch_sound [OF m] have m': "list_all2 matches block_rx ps"
    and d: "drop i content = concat ps @ r" by simp_all
  from m' b have "block_tag b (concat ps)" unfolding block_tag_iff by blast
  moreover have "content = take i content @ concat ps @ r"
    using d append_take_drop_id [of i content] by simp
  then have "sublist (concat ps) content" unfolding sublist_def by blast
  ultimately show "\<exists>tag. block_tag b tag \<and> sublist tag content" by blast
next
  assume "\<exists>tag. block_tag b tag \<and> sublist tag content"
  then obtain tag pre post where t: "block_tag b tag" and c: "content = pre @ tag @ post"
    by (auto simp: sublist_def)
  from t obtain ps0 where m0: "list_all2 matches block_rx ps0" and tag: "tag = concat ps0"
    unfolding block_tag_iff by blast
  from rmatch_complete [OF m0, of post] tag
  obtain ps r where m: "rmatch block_rx (tag @ post) = Some (ps, r)" by auto
  from rmatch_sound [OF m] have m': "list_all2 matches block_rx ps" and e: "tag @ post = concat ps @ r"
    by simp_all
  from m' have t': "block_tag (ps ! 4) (concat ps)" unfolding block_tag_iff by blast
  from block_tag_unique [OF t t' e] have b: "ps ! 4 = b" by simp
  from t have "tag \<noteq> []" by (auto simp: block_tag_def)
  with c have i: "length pre < length content" by simp
  from m c have md: "rmatch block_rx (drop (length pre) content) = Some (ps, r)" by simp
  from finditer_from_complete [of block_rx "length pre" content ps r 0 0, OF block_rx_inner md i]
  have "(length pre, ps) \<in> set (finditer block_rx content)" by (simp add: finditer_def)
  with b show "b \<in> set (findall_blocks content)"
    by (force simp: findall_blocks_def)
qed

text \<open>
  C8, as the code has it. \<open>_diagnose_templates\<close> reports an \<open>unclosed_block\<close> issue (severity
  high) for the block \<open>b\<close> of a template exactly when the template can be read, an
  opening tag of the block \<open>b\<close> occurs in its content, and no closing tag for \<open>b\<close> (bare,
  or naming \<open>b\<close>) occurs anywhere in the content, before or after the opening tag. The
  tags are those of \<open>block_tag\<close> and \<open>endblock_tag\<close>.
\<close>

theorem unclosed_block_iff:
  "(UnclosedBlock rel b \<in> set (diagnose_templates fs templates refs routes) \<longleftrightarrow>
     (\<exists>t \<in> set templates. \<exists>content. t_relative_path t = rel \<and> fs (t_path t) = Some content \<and>
         (\<exists>tag. block_tag b tag \<and> sublist tag content) \<and>
         \<not> (\<exists>tag. endblock_tag b tag \<and> sublist tag content)))
   \<and> issue_type (UnclosedBlock rel b) = ''unclosed_block''
   \<and> severity (UnclosedBlock rel b) = ''high''"
  unfolding unclosed_in_diagnose unclosed_in_template findall_blocks_iff rsearch_endblock
  by simp

text \<open>
  Tags written with Jinja's whitespace control are not among the tags of the patterns: a
  block closed by \<open>{%- endblock -%}\<close> is reported, and a block opened by
  \<open>{%- block a -%}\<close> is not seen.
\<close>

lemma whitespace_control_tags:
  "unclosed_blocks \<lparr>t_path = [''page.html''], t_relative_path = ''page.html'', t_name = ''page.html''\<rparr>
     ''{% block a %}x{%- endblock -%}'' = [UnclosedBlock ''page.html'' ''a'']
   \<and> unclosed_blocks \<lparr>t_path = [''page.html''], t_relative_path = ''page.html'', t_name = ''page.html''\<rparr>
     ''{%- block a -%}x'' = []"
  by code_simp

lemma page_block_tag: "block_tag ''b'' ''{% block b %}''"
proof -
  have "list_all is_space '' ''" and "list_all is_word ''b''" by code_simp+
  then show ?thesis
    unfolding block_tag_def
    by (intro exI [of _ "'' ''"]) simp
qed

lemma page_no_later_endblock:
  "\<not> (\<exists>tag. endblock_tag ''b'' tag \<and> sublist tag (drop 14 ''{% endblock %}{% block b %}''))"
proof -
  have "\<not> rsearch (endblock_rx ''b'') (drop 14 ''{% endblock %}{% block b %}'')" by code_simp
  then show ?thesis unfolding rsearch_endblock .
qed

text \<open>
  The claim as stated fails on a template that closes a block before it opens one: the
  only opening tag, of the block \<open>b\<close>, stands at offset 14, no closing tag for \<open>b\<close> occurs
  from there on, and yet no \<open>unclosed_block\<close> issue is reported, because the earlier bare
  closing tag is found.
\<close>

theorem unclosed_block_later_counterexample:
  "''{% endblock %}{% block b %}'' = take 14 ''{% endblock %}{% block b %}'' @ ''{% block b %}''
   \<and> block_tag ''b'' ''{% block b %}''
   \<and> \<not> (\<exists>tag. endblock_tag ''b'' tag \<and> sublist tag (drop 14 ''{% endblock %}{% block b %}''))
   \<and> finditer block_rx ''{% endblock %}{% block b %}''
     = [(14, [''{%'', '' '', ''block'', '' '', ''b'', '' '', ''%}''])]
   \<and> \<not> rsearch (endblock_rx ''b'') (drop 14 ''{% endblock %}{% block b %}'')
   \<and> diagnose_templates
        [[''app'', ''templates'', ''page.html''] \<mapsto> ''{% endblock %}{% block b %}'']
        [\<lparr>t_path = [''app'', ''templates'', ''page.html''], t_relative_path = ''page.html'',
          t_name = ''page.html''\<rparr>] [] []
     = [UnusedTemplate ''page.html'']"
proof -
  have "finditer block_rx ''{% endblock %}{% block b %}''
     = [(14, [''{%'', '' '', ''block'', '' '', ''b'', '' '', ''%}''])]
   \<and> \<not> rsearch (endblock_rx ''b'') (drop 14 ''{% endblock %}{% block b %}'')
   \<and> diagnose_templates
        [[''app'', ''templates'', ''page.html''] \<mapsto> ''{% endblock %}{% block b %}'']
        [\<lparr>t_path = [''app'', ''templates'', ''page.html''], t_relative_path = ''page.html'',
          t_name = ''page.html''\<rparr>] [] []
     = [UnusedTemplate ''page.html'']"
    by code_simp
  moreover have "''{% endblock %}{% block b %}'' = take 14 ''{% endblock %}{% block b %}'' @ ''{% block b %}''"
    by simp
  ultimately show ?thesis using page_block_tag page_no_later_endblock by blast
qed


section \<open>Backups\<close>





lemma backup_file_cases:
  assumes "backed_up cx fs0 e0" and "backup_file cx q e0 = (r, e)"
  shows "h_backup_dir e = Some (backup_root cx) \<and>
         ((r \<noteq> None \<and> h_files e = h_files e0) \<or>
          (r = None \<and> prefix (c_project_path cx) q \<and>
             (\<exists>content. h_files e0 q = Some content \<and> backup_path_of cx q \<noteq> q \<and>
                h_files e = (h_files e0)(backup_path_of cx q \<mapsto> content))))"
  using assms
  by (auto simp: backed_up_def backup_file_def create_backups_def Let_def backup_root_def
      backup_path_of_def split: option.splits if_splits)



















text \<open>
  A repair that writes a file leaves, in the backup directory, the content that the file
  had when the repair began.
\<close>

lemma patch_saves_previous_content:
  assumes "backed_up cx fs0 e0" and "patch cx cat q repair e0 = (e, True)"
  shows "h_files e (backup_path_of cx q) = h_files e0 q \<and> h_files e0 q \<noteq> None"
proof (cases "backup_file cx q e0")
  case (Pair r e1)
  note bf = backup_file_cases [OF assms(1) Pair]
  from assms(2) Pair have "r = None"
    by (cases r) (simp_all add: patch_def)
  with bf obtain content where c0: "h_files e0 q = Some content"
    and ne: "backup_path_of cx q \<noteq> q"
    and eq: "h_files e1 = (h_files e0)(backup_path_of cx q \<mapsto> content)" by auto
  have cur: "h_files e1 q = Some content" using c0 ne by (simp add: eq)
  from assms(2) Pair \<open>r = None\<close> cur obtain new fxs where
    "e = add_fixes cat fxs (write_file q new e1)"
    by (auto simp: patch_def split: option.splits)
  then have "h_files e (backup_path_of cx q) = Some content"
    using ne by (simp add: add_fixes_def write_file_def eq)
  with c0 show ?thesis by simp
qed


































section \<open>The backup of a file that is repaired twice\<close>

lemma two_secrets_diagnosed:
  "diagnose_security [shop_app \<mapsto> two_secrets] [shop_app] [] = two_secret_issues"
  by code_simp

lemma two_secrets_backup:
  "h_files (heal shop_surroundings (security_issues_only two_secret_issues) True
              (new_engine [shop_app \<mapsto> two_secrets]))
     (backup_path_of shop_surroundings shop_app)
   = Some (join_lines
       [''from flask import Flask'',
        ''app = Flask(\"shop\")'',
        ''app.password = \"hunter22\"'' @ secret_todo,
        ''app.token = \"abcdefghij1234\"'',
        []])"
  by code_simp

lemma two_secrets_healed:
  "h_files (heal shop_surroundings (security_issues_only two_secret_issues) True
              (new_engine [shop_app \<mapsto> two_secrets])) shop_app
   = Some (join_lines
       [''from flask import Flask'',
        ''app = Flask(\"shop\")'',
        ''app.password = \"hunter22\"'' @ secret_todo,
        ''app.token = \"abcdefghij1234\"'' @ secret_todo,
        []])"
  by code_simp

lemma once_repaired_differs:
  "join_lines
       [''from flask import Flask'',
        ''app = Flask(\"shop\")'',
        ''app.password = \"hunter22\"'' @ secret_todo,
        ''app.token = \"abcdefghij1234\"'',
        []] \<noteq> two_secrets"
  by code_simp

text \<open>
  C1 at a file with two issues. The diagnostic reports two \<open>hardcoded_secret\<close> issues for
  the application file of the example; \<open>heal\<close> repairs them one after the other, and each
  repair copies the file into the backup directory again. At the end the backup holds
  the file as the first repair left it, not the content from before the first
  modification.
\<close>

theorem backup_overwritten_by_second_repair:
  "diagnose_security [shop_app \<mapsto> two_secrets] [shop_app] [] = two_secret_issues
   \<and> h_files (heal shop_surroundings (security_issues_only two_secret_issues) True
                (new_engine [shop_app \<mapsto> two_secrets]))
       (backup_path_of shop_surroundings shop_app)
     = Some (join_lines
         [''from flask import Flask'',
          ''app = Flask(\"shop\")'',
          ''app.password = \"hunter22\"'' @ secret_todo,
          ''app.token = \"abcdefghij1234\"'',
          []])
   \<and> h_files (heal shop_surroundings (security_issues_only two_secret_issues) True
                (new_engine [shop_app \<mapsto> two_secrets]))
       (backup_path_of shop_surroundings shop_app)
     \<noteq> Some two_secrets"
  using two_secrets_diagnosed two_secrets_backup once_repaired_differs by simp

section \<open>The repair of a hardcoded secret key\<close>

lemma one_secret_key_diagnosed:
  "diagnose_security [shop_app \<mapsto> one_secret_key] [shop_app] [] = one_secret_key_issues"
  by code_simp

lemma one_secret_key_healed:
  "h_files (heal shop_surroundings (security_issues_only one_secret_key_issues) True
              (new_engine [shop_app \<mapsto> one_secret_key])) shop_app
   = Some (join_lines
       [''from flask import Flask'',
        ''import os'',
        [],
        ''SECRET_KEY = \"abcdef1234567890\"'',
        ''app.secret_key = SECRET_KEY'',
        []])"
  by code_simp

lemma one_secret_key_fixes:
  "h_fixes (heal shop_surroundings (security_issues_only one_secret_key_issues) True
              (new_engine [shop_app \<mapsto> one_secret_key])) ''security''
   = [FixedHardcodedSecret shop_app 3]"
  by code_simp

text \<open>
  C7 at an application file with a hardcoded \<open>SECRET_KEY\<close> and no import of \<open>os\<close>. The
  diagnostic reports the one \<open>hardcoded_secret\<close> issue, with severity high, at line 3.
  The repair inserts \<open>import os\<close> and then assigns to the old index of the line, with the
  text of the last line of the file: the line \<open>app = Flask(__name__)\<close> is replaced by an
  empty line, the assignment of the secret stays as it was, with its literal, and a
  \<open>fixed_hardcoded_secret\<close> fix is recorded.
\<close>

theorem secret_key_repair_misses_the_assignment:
  "diagnose_security [shop_app \<mapsto> one_secret_key] [shop_app] []
     = [HardcodedSecret shop_app 3 ''SECRET_KEY hardcoded'']
   \<and> severity (HardcodedSecret shop_app 3 ''SECRET_KEY hardcoded'') = ''high''
   \<and> h_files (heal shop_surroundings (security_issues_only one_secret_key_issues) True
                (new_engine [shop_app \<mapsto> one_secret_key])) shop_app
     = Some (join_lines
         [''from flask import Flask'',
          ''import os'',
          [],
          ''SECRET_KEY = \"abcdef1234567890\"'',
          ''app.secret_key = SECRET_KEY'',
          []])
   \<and> h_fixes (heal shop_surroundings (security_issues_only one_secret_key_issues) True
                (new_engine [shop_app \<mapsto> one_secret_key])) ''security''
     = [FixedHardcodedSecret shop_app 3]"
  using one_secret_key_diagnosed one_secret_key_healed one_secret_key_fixes
  by (simp add: one_secret_key_issues_def)

section \<open>The repair of an invalid endpoint reference\<close>

lemma scored_matches_Some:
  "scored_matches sim w xs = Some r \<Longrightarrow>
     None \<notin> set xs \<and> set r = {(sim x w, x) | x. Some x \<in> set xs \<and> cutoff \<le> sim x w}"
proof (induction xs arbitrary: r)
  case Nil
  then show ?case by simp
next
  case (Cons a xs)
  then show ?case
    by (cases a) (auto split: option.splits if_splits)
qed

lemma largest_from_mem: "largest_from best ys \<in> set (best # ys)"
  by (induction ys arbitrary: best) auto

lemma largest_from_ge:
  "fst best \<le> fst (largest_from best ys) \<and> (\<forall>y \<in> set ys. fst y \<le> fst (largest_from best ys))"
proof (induction ys arbitrary: best)
  case Nil
  then show ?case by simp
next
  case (Cons y ys)
  let ?b = "if pair_less best y then y else best"
  have 1: "fst best \<le> fst ?b" by (auto simp: pair_less_def)
  have 2: "fst y \<le> fst ?b" by (auto simp: pair_less_def)
  from Cons.IH [of ?b] 1 2 show ?case by (auto intro: order_trans)
qed

lemma get_close_match_best:
  assumes "get_close_match sim w xs = Some (Some best)"
  shows "Some best \<in> set xs \<and> cutoff \<le> sim best w \<and>
         (\<forall>s. Some s \<in> set xs \<longrightarrow> sim s w \<le> sim best w)"
proof -
  from assms obtain y ys where sm: "scored_matches sim w xs = Some (y # ys)"
    and b: "best = snd (largest_from y ys)"
    by (auto simp: get_close_match_def split: option.splits list.splits)
  from scored_matches_Some [OF sm]
  have set: "set (y # ys) = {(sim x w, x) | x. Some x \<in> set xs \<and> cutoff \<le> sim x w}" by simp
  have "largest_from y ys \<in> set (y # ys)" by (rule largest_from_mem)
  with set b have mem: "Some best \<in> set xs" and cut: "cutoff \<le> sim best w"
    and fst: "fst (largest_from y ys) = sim best w" by auto
  have "sim s w \<le> sim best w" if "Some s \<in> set xs" for s
  proof (cases "cutoff \<le> sim s w")
    case True
    with that set have "(sim s w, s) \<in> set (y # ys)" by auto
    with largest_from_ge [of y ys] have "sim s w \<le> fst (largest_from y ys)" by auto
    with fst show ?thesis by simp
  next
    case False
    with cut show ?thesis by simp
  qed
  with mem cut show ?thesis by blast
qed

lemma url_for_repair_Some:
  assumes "url_for_repair cx t endpoint e content = Some (new_content, fxs)"
  shows "\<exists>best. Some best \<in> set (endpoints_of (c_get_routes cx (h_files e))) \<and>
           cutoff \<le> c_similarity cx best endpoint \<and>
           (\<forall>s. Some s \<in> set (endpoints_of (c_get_routes cx (h_files e))) \<longrightarrow>
               c_similarity cx s endpoint \<le> c_similarity cx best endpoint) \<and>
           fxs = [FixedUrlFor t endpoint best] \<and>
           new_content = re_sub (url_for_ref_rx endpoint)
                           (''url_for('' @ [CHR 0x27] @ best @ [CHR 0x27]) content"
proof -
  from assms obtain best where
    g: "get_close_match (c_similarity cx) endpoint (endpoints_of (c_get_routes cx (h_files e)))
          = Some (Some best)"
    and r: "fxs = [FixedUrlFor t endpoint best]"
       "new_content = re_sub (url_for_ref_rx endpoint)
                           (''url_for('' @ [CHR 0x27] @ best @ [CHR 0x27]) content"
    by (auto simp: url_for_repair_def Let_def split: if_splits option.splits)
  from get_close_match_best [OF g] r show ?thesis by blast
qed

lemma patch_unchanged:
  assumes "patch cx cat q repair e0 = (e, False)"
  shows "h_files e q = h_files e0 q \<and> h_fixes e = h_fixes e0"
  using assms
  by (auto simp: patch_def backup_file_def create_backups_def Let_def
      split: option.splits if_splits prod.splits)

lemma patch_changed:
  assumes "patch cx cat q repair e0 = (e, True)"
  shows "\<exists>content new_content fxs.
           h_files (snd (backup_file cx q e0)) q = Some content \<and>
           repair (snd (backup_file cx q e0)) content = Some (new_content, fxs) \<and>
           h_files e q = Some new_content \<and>
           h_fixes e = (h_fixes e0)(cat := h_fixes e0 cat @ fxs)"
  using assms
  by (auto simp: patch_def backup_file_def create_backups_def Let_def write_file_def add_fixes_def
      split: option.splits if_splits prod.splits)

text \<open>
  C5. For an \<open>invalid_url_for\<close> issue whose template is found: when every candidate
  endpoint is below the cutoff, the repair leaves the content of the template and the
  recorded fixes as they were; and whenever the repair changes the template or records a
  fix, some candidate reaches the cutoff, the candidate chosen has the highest similarity
  of all, and the fix recorded names it.
\<close>

theorem invalid_url_for_cutoff:
  assumes "template_path_of (c_get_templates cx (h_files e0)) template_name = Some tp"
  shows
    "((\<forall>s. Some s \<in> set (url_for_candidates cx tp e0) \<longrightarrow> c_similarity cx s endpoint < cutoff) \<longrightarrow>
        h_files (heal_invalid_url_for cx (InvalidUrlFor template_name endpoint) e0) tp = h_files e0 tp \<and>
        h_fixes (heal_invalid_url_for cx (InvalidUrlFor template_name endpoint) e0) = h_fixes e0)
     \<and>
     (h_files (heal_invalid_url_for cx (InvalidUrlFor template_name endpoint) e0) tp \<noteq> h_files e0 tp \<or>
      h_fixes (heal_invalid_url_for cx (InvalidUrlFor template_name endpoint) e0) \<noteq> h_fixes e0 \<longrightarrow>
        (\<exists>best. Some best \<in> set (url_for_candidates cx tp e0) \<and>
           cutoff \<le> c_similarity cx best endpoint \<and>
           (\<forall>s. Some s \<in> set (url_for_candidates cx tp e0) \<longrightarrow>
               c_similarity cx s endpoint \<le> c_similarity cx best endpoint) \<and>
           h_fixes (heal_invalid_url_for cx (InvalidUrlFor template_name endpoint) e0) ''templates''
             = h_fixes e0 ''templates'' @ [FixedUrlFor template_name endpoint best]))"
proof -
  let ?R = "url_for_repair cx template_name endpoint"
  let ?e = "heal_invalid_url_for cx (InvalidUrlFor template_name endpoint) e0"
  obtain e b where p: "patch cx ''templates'' tp ?R e0 = (e, b)"
    by (cases "patch cx ''templates'' tp ?R e0")
  with assms have e: "?e = e" by simp
  show ?thesis
  proof (cases b)
    case False
    with p have "h_files e tp = h_files e0 tp \<and> h_fixes e = h_fixes e0"
      by (simp add: patch_unchanged)
    with e show ?thesis by simp
  next
    case True
    with p patch_changed [of cx "''templates''" tp ?R e0 e]
    obtain content new_content fxs where
      rep: "?R (snd (backup_file cx tp e0)) content = Some (new_content, fxs)"
      and fx: "h_fixes e = (h_fixes e0)(''templates'' := h_fixes e0 ''templates'' @ fxs)"
      by auto
    from url_for_repair_Some [OF rep] obtain best where
      best: "Some best \<in> set (url_for_candidates cx tp e0)"
        "cutoff \<le> c_similarity cx best endpoint"
        "\<forall>s. Some s \<in> set (url_for_candidates cx tp e0) \<longrightarrow>
               c_similarity cx s endpoint \<le> c_similarity cx best endpoint"
        "fxs = [FixedUrlFor template_name endpoint best]"
      unfolding url_for_candidates_def by blast
    from best(1,2) have no: "\<not> (\<forall>s. Some s \<in> set (url_for_candidates cx tp e0) \<longrightarrow>
        c_similarity cx s endpoint < cutoff)" by (auto simp: not_less)
    from fx best(4) have "h_fixes e ''templates''
        = h_fixes e0 ''templates'' @ [FixedUrlFor template_name endpoint best]" by simp
    with best no e show ?thesis by blast
  qed
qed

lemma page_template_found: "template_path_of (c_get_templates (page_surroundings sim f) (h_files (new_engine [shop_page \<mapsto> page_text]))) ''page.html'' = Some shop_page"
  by (simp add: page_surroundings_def template_path_of_def)

lemma page_candidates_below_cutoff: "\<forall>s. Some s \<in> set (url_for_candidates (page_surroundings (\<lambda>a b. 3 / 11) ''list_all_items'') shop_page (new_engine [shop_page \<mapsto> page_text]))
    \<longrightarrow> c_similarity (page_surroundings (\<lambda>a b. 3 / 11) ''list_all_items'') s ''show_usr'' < cutoff"
  by (simp add: page_surroundings_def cutoff_def)

lemma page_rewritten_above_cutoff: "h_files (heal_invalid_url_for (page_surroundings (\<lambda>a b. if a = ''show_user'' then 16 / 17 else 3 / 11) ''show_user'')
     (InvalidUrlFor ''page.html'' ''show_usr'') (new_engine [shop_page \<mapsto> page_text])) shop_page
   = Some ''<a href=\"{{ url_for('show_user') }}\">''"
  by code_simp

text \<open>
  The scenario of the specification: the only candidate, \<open>list_all_items\<close>, is below the
  cutoff, and the template and the fixes stay as they are.
\<close>

theorem invalid_url_for_cutoff_witness:
  "h_files (heal_invalid_url_for (page_surroundings (\<lambda>a b. 3 / 11) ''list_all_items'')
              (InvalidUrlFor ''page.html'' ''show_usr'') (new_engine [shop_page \<mapsto> page_text])) shop_page
     = Some page_text
   \<and> h_fixes (heal_invalid_url_for (page_surroundings (\<lambda>a b. 3 / 11) ''list_all_items'')
              (InvalidUrlFor ''page.html'' ''show_usr'') (new_engine [shop_page \<mapsto> page_text])) ''templates''
     = []"
  using invalid_url_for_cutoff [OF page_template_found, of "\<lambda>a b. 3 / 11" "''list_all_items''" "''show_usr''"]
    page_candidates_below_cutoff
  by (simp add: new_engine_def)

section \<open>The repair of a route without a return\<close>

lemma show_route_diagnosed:
  "diagnose_routes show_parser [shop_app \<mapsto> show_route] [shop_app] show_routes = show_issues"
  by code_simp

lemma show_route_repaired:
  "h_files (heal (shop_surroundings\<lparr>c_parse := show_parser\<rparr>) (route_issues_only show_issues) True
             (new_engine [shop_app \<mapsto> show_route])) shop_app = Some show_route_healed"
  by code_simp

lemma show_route_fix:
  "h_fixes (heal (shop_surroundings\<lparr>c_parse := show_parser\<rparr>) (route_issues_only show_issues) True
             (new_engine [shop_app \<mapsto> show_route])) ''routes''
   = [AddedReturn shop_app ''show'' ''shop/show/show.html'']"
  by code_simp

lemma show_route_diagnosed_again:
  "diagnose_routes show_parser [shop_app \<mapsto> show_route_healed] [shop_app] show_routes = show_issues"
  by code_simp

text \<open>
  C4 at a route function whose body ends with a statement of several lines. The
  diagnostic reports \<open>missing_return\<close> for \<open>show\<close>; the repair inserts the return line at
  the index of the last line of the function, that is before that line, so the new line
  stands inside the docstring; an \<open>added_return\<close> fix is recorded; and the diagnostic of
  the patched file reports \<open>missing_return\<close> for \<open>show\<close> again.
\<close>

theorem added_return_lands_in_docstring:
  "diagnose_routes show_parser [shop_app \<mapsto> show_route] [shop_app] show_routes
     = [MissingReturn shop_app ''show'' 5, UnspecifiedMethods shop_app ''/show'' None]
   \<and> h_files (heal (shop_surroundings\<lparr>c_parse := show_parser\<rparr>) (route_issues_only show_issues)
                True (new_engine [shop_app \<mapsto> show_route])) shop_app
     = Some show_route_healed
   \<and> h_fixes (heal (shop_surroundings\<lparr>c_parse := show_parser\<rparr>) (route_issues_only show_issues)
                True (new_engine [shop_app \<mapsto> show_route])) ''routes''
     = [AddedReturn shop_app ''show'' ''shop/show/show.html'']
   \<and> diagnose_routes show_parser [shop_app \<mapsto> show_route_healed] [shop_app] show_routes
     = [MissingReturn shop_app ''show'' 5, UnspecifiedMethods shop_app ''/show'' None]"
  using show_route_diagnosed show_route_repaired show_route_fix show_route_diagnosed_again
  by (simp add: show_issues_def)

section \<open>The pattern of the project\<close>

lemma analyze_files_lists [simp]: "d_lists (analyze_files parse fs xs d) = d_lists d"
  by (induction xs arbitrary: d) auto

lemma analyze_files_structure [simp]: "d_structure (analyze_files parse fs xs d) = d_structure d"
  by (induction xs arbitrary: d) auto

lemma analyze_files_path [simp]: "d_project_path (analyze_files parse fs xs d) = d_project_path d"
  by (induction xs arbitrary: d) auto

lemma analyze_files_db [simp]: "d_db_type (analyze_files parse fs xs d) = d_db_type d"
  "d_auth_system (analyze_files parse fs xs d) = d_auth_system d"
  by (induction xs arbitrary: d) auto

lemma analyze_files_factories:
  "d_factory_functions (analyze_files parse fs xs d)
     = d_factory_functions d @ concat (map (factories_in parse fs) xs)"
  by (induction xs arbitrary: d) auto

lemma analyze_files_instances:
  "d_app_instances (analyze_files parse fs xs d)
     = d_app_instances d @ concat (map (instances_in parse fs) xs)"
  by (induction xs arbitrary: d) auto

lemma pattern_keeps [simp]:
  "d_lists (detect_project_pattern d) = d_lists d"
  "d_factory_functions (detect_project_pattern d) = d_factory_functions d"
  "d_app_instances (detect_project_pattern d) = d_app_instances d"
  "d_project_path (detect_project_pattern d) = d_project_path d"
  by (auto simp: detect_project_pattern_def split: list.splits)

lemma database_keeps [simp]:
  "d_lists (detect_database fs d) = d_lists d"
  "d_factory_functions (detect_database fs d) = d_factory_functions d"
  "d_app_instances (detect_database fs d) = d_app_instances d"
  "d_project_path (detect_database fs d) = d_project_path d"
  "s_pattern (d_structure (detect_database fs d)) = s_pattern (d_structure d)"
  "s_factory_function (d_structure (detect_database fs d)) = s_factory_function (d_structure d)"
  "s_app_instance (d_structure (detect_database fs d)) = s_app_instance (d_structure d)"
  by (auto simp: detect_database_def split: list.splits option.splits)

lemma auth_keeps [simp]:
  "d_lists (detect_auth_system fs d) = d_lists d"
  "d_factory_functions (detect_auth_system fs d) = d_factory_functions d"
  "d_app_instances (detect_auth_system fs d) = d_app_instances d"
  "d_project_path (detect_auth_system fs d) = d_project_path d"
  "s_pattern (d_structure (detect_auth_system fs d)) = s_pattern (d_structure d)"
  "s_factory_function (d_structure (detect_auth_system fs d)) = s_factory_function (d_structure d)"
  "s_app_instance (d_structure (detect_auth_system fs d)) = s_app_instance (d_structure d)"
  "s_database (d_structure (detect_auth_system fs d)) = s_database (d_structure d)"
  by (auto simp: detect_auth_system_def split: list.splits option.splits)

lemma build_keeps [simp]:
  "d_lists (build_structure_map d) = d_lists d"
  "d_factory_functions (build_structure_map d) = d_factory_functions d"
  "d_app_instances (build_structure_map d) = d_app_instances d"
  "d_project_path (build_structure_map d) = d_project_path d"
  "s_pattern (d_structure (build_structure_map d)) = s_pattern (d_structure d)"
  "s_factory_function (d_structure (build_structure_map d)) = s_factory_function (d_structure d)"
  "s_app_instance (d_structure (build_structure_map d)) = s_app_instance (d_structure d)"
  "s_database (d_structure (build_structure_map d)) = s_database (d_structure d)"
  "s_auth (d_structure (build_structure_map d)) = s_auth (d_structure d)"
  "s_map (d_structure (build_structure_map d)) = Some (d_project_path d, d_lists d)"
  by (auto simp: build_structure_map_def)

lemma find_keeps [simp]:
  "d_factory_functions (find_flask_files tree d) = d_factory_functions d"
  "d_app_instances (find_flask_files tree d) = d_app_instances d"
  "d_project_path (find_flask_files tree d) = d_project_path d"
  "d_structure (find_flask_files tree d) = d_structure d"
  "d_lists (find_flask_files tree d) = find_in_dir (d_project_path d) tree (d_lists d)"
  by (auto simp: find_flask_files_def)

lemma pattern_result:
  "s_pattern (d_structure (detect_project_pattern d))
     = Some (if d_factory_functions d \<noteq> [] then ''factory''
             else if d_app_instances d \<noteq> [] then
               (if l_blueprint_files (d_lists d) \<noteq> [] then ''modular'' else ''monolithic'')
             else ''unknown'')"
  "s_factory_function (d_structure (detect_project_pattern d))
     = (case d_factory_functions d of f # fs \<Rightarrow> Some f | [] \<Rightarrow> s_factory_function (d_structure d))"
  "s_app_instance (d_structure (detect_project_pattern d))
     = (case d_factory_functions d of
          f # fs \<Rightarrow> s_app_instance (d_structure d)
        | [] \<Rightarrow> (case d_app_instances d of i # is \<Rightarrow> Some i | [] \<Rightarrow> s_app_instance (d_structure d)))"
  by (auto simp: detect_project_pattern_def split: list.splits)

text \<open>
  C6. After \<open>detect\<close> on a fresh detector, the factory functions and the application
  instances are those of the application files, file by file in the order of discovery
  and node by node in the order of the walk. If there is a factory function the pattern
  is \<open>factory\<close> and the first one is selected; otherwise, if there is an application
  instance, the pattern is \<open>modular\<close> when there are blueprint files and \<open>monolithic\<close>
  when there are none, and the first instance is selected; otherwise the pattern is
  \<open>unknown\<close> and nothing is selected.
\<close>

theorem pattern_resolution:
  "d_factory_functions (detect parse tree (new_detector p))
     = concat (map (factories_in parse (files_of p tree))
                 (l_app_files (d_lists (detect parse tree (new_detector p)))))
   \<and> d_app_instances (detect parse tree (new_detector p))
     = concat (map (instances_in parse (files_of p tree))
                 (l_app_files (d_lists (detect parse tree (new_detector p)))))
   \<and> s_pattern (d_structure (detect parse tree (new_detector p)))
     = Some (if d_factory_functions (detect parse tree (new_detector p)) \<noteq> [] then ''factory''
             else if d_app_instances (detect parse tree (new_detector p)) \<noteq> [] then
               (if l_blueprint_files (d_lists (detect parse tree (new_detector p))) \<noteq> []
                then ''modular'' else ''monolithic'')
             else ''unknown'')
   \<and> s_factory_function (d_structure (detect parse tree (new_detector p)))
     = (case d_factory_functions (detect parse tree (new_detector p)) of
          factory # others \<Rightarrow> Some factory | [] \<Rightarrow> None)
   \<and> s_app_instance (d_structure (detect parse tree (new_detector p)))
     = (case d_factory_functions (detect parse tree (new_detector p)) of
          factory # others \<Rightarrow> None
        | [] \<Rightarrow> (case d_app_instances (detect parse tree (new_detector p)) of
                   app_instance # others \<Rightarrow> Some app_instance | [] \<Rightarrow> None))"
proof -
  let ?fs = "files_of p tree"
  let ?d1 = "find_flask_files tree (new_detector p)"
  let ?d2 = "analyze_app_files parse ?fs ?d1"
  let ?d3 = "detect_project_pattern ?d2"
  let ?d = "detect parse tree (new_detector p)"
  have d: "?d = build_structure_map (detect_auth_system ?fs (detect_database ?fs ?d3))"
    by (simp add: detect_def Let_def new_detector_def)
  have lists: "d_lists ?d = d_lists ?d1"
    by (simp add: d analyze_app_files_def)
  have F: "d_factory_functions ?d2
             = concat (map (factories_in parse ?fs) (l_app_files (d_lists ?d1)))"
    by (simp add: analyze_app_files_def analyze_files_factories new_detector_def)
  have I: "d_app_instances ?d2
             = concat (map (instances_in parse ?fs) (l_app_files (d_lists ?d1)))"
    by (simp add: analyze_app_files_def analyze_files_instances new_detector_def)
  have S: "s_factory_function (d_structure ?d2) = None" "s_app_instance (d_structure ?d2) = None"
    by (simp_all add: analyze_app_files_def new_detector_def)
  have L2: "d_lists ?d2 = d_lists ?d1"
    by (simp add: analyze_app_files_def)
  have dF: "d_factory_functions ?d = d_factory_functions ?d2"
    and dI: "d_app_instances ?d = d_app_instances ?d2"
    by (simp_all add: d)
  have c1: "d_factory_functions ?d
     = concat (map (factories_in parse ?fs) (l_app_files (d_lists ?d)))"
    by (simp only: dF F lists)
  have c2: "d_app_instances ?d
     = concat (map (instances_in parse ?fs) (l_app_files (d_lists ?d)))"
    by (simp only: dI I lists)
  have c3: "s_pattern (d_structure ?d)
     = Some (if d_factory_functions ?d \<noteq> [] then ''factory''
             else if d_app_instances ?d \<noteq> [] then
               (if l_blueprint_files (d_lists ?d) \<noteq> [] then ''modular'' else ''monolithic'')
             else ''unknown'')"
    by (simp only: dF dI lists) (simp add: d pattern_result(1) L2)
  have c4: "s_factory_function (d_structure ?d)
     = (case d_factory_functions ?d of factory # others \<Rightarrow> Some factory | [] \<Rightarrow> None)"
    by (simp only: dF) (simp add: d pattern_result(2) S split: list.splits)
  have c5: "s_app_instance (d_structure ?d)
     = (case d_factory_functions ?d of
          factory # others \<Rightarrow> None
        | [] \<Rightarrow> (case d_app_instances ?d of
                   app_instance # others \<Rightarrow> Some app_instance | [] \<Rightarrow> None))"
    by (simp only: dF dI) (simp add: d pattern_result(3) S split: list.splits)
  from c1 c2 c3 c4 c5 show ?thesis by blast
qed

section \<open>The database of the project\<close>

text \<open>What the three loops look for, said without the loops.\<close>

lemma any_marker_iff: "any_marker ps content \<longleftrightarrow> (\<exists>m \<in> set ps. contains m content)"
  by (induction ps) auto

lemma first_kind_Some:
  "first_kind table content = Some kind \<longleftrightarrow>
     (\<exists>before ps after. table = before @ (kind, ps) # after \<and> any_marker ps content \<and>
        (\<forall>(k, qs) \<in> set before. \<not> any_marker qs content))"
proof (induction table)
  case Nil
  then show ?case by simp
next
  case (Cons a table)
  obtain k qs where a: "a = (k, qs)" by (cases a)
  show ?case
  proof (cases "any_marker qs content")
    case True
    have "(\<exists>before ps after. (k, qs) # table = before @ (kind, ps) # after \<and> any_marker ps content \<and>
        (\<forall>(k, qs) \<in> set before. \<not> any_marker qs content)) \<longleftrightarrow> k = kind"
    proof
      assume "\<exists>before ps after. (k, qs) # table = before @ (kind, ps) # after \<and> any_marker ps content \<and>
        (\<forall>(k, qs) \<in> set before. \<not> any_marker qs content)"
      then obtain before ps after where eq: "(k, qs) # table = before @ (kind, ps) # after"
        and no: "\<forall>(k, qs) \<in> set before. \<not> any_marker qs content" by blast
      show "k = kind"
      proof (cases before)
        case Nil
        with eq show ?thesis by simp
      next
        case (Cons b bs)
        with eq have "b = (k, qs)" by simp
        with Cons no True show ?thesis by auto
      qed
    next
      assume "k = kind"
      then have "(k, qs) # table = [] @ (kind, qs) # table" by simp
      with True show "\<exists>before ps after. (k, qs) # table = before @ (kind, ps) # after \<and>
          any_marker ps content \<and> (\<forall>(k, qs) \<in> set before. \<not> any_marker qs content)"
        by (metis (no_types, lifting) empty_iff empty_set)
    qed
    with True a show ?thesis by auto
  next
    case False
    have "(\<exists>before ps after. (k, qs) # table = before @ (kind, ps) # after \<and> any_marker ps content \<and>
        (\<forall>(k, qs) \<in> set before. \<not> any_marker qs content)) \<longleftrightarrow>
        (\<exists>before ps after. table = before @ (kind, ps) # after \<and> any_marker ps content \<and>
        (\<forall>(k, qs) \<in> set before. \<not> any_marker qs content))" (is "?L \<longleftrightarrow> ?R")
    proof
      assume ?L
      then obtain before ps after where eq: "(k, qs) # table = before @ (kind, ps) # after"
        and m: "any_marker ps content"
        and no: "\<forall>(k, qs) \<in> set before. \<not> any_marker qs content" by blast
      show ?R
      proof (cases before)
        case Nil
        with eq m False show ?thesis by simp
      next
        case (Cons b bs)
        with eq have "table = bs @ (kind, ps) # after" by simp
        moreover from no Cons have "\<forall>(k, qs) \<in> set bs. \<not> any_marker qs content" by simp
        ultimately show ?thesis using m by blast
      qed
    next
      assume ?R
      then obtain before ps after where eq: "table = before @ (kind, ps) # after"
        and m: "any_marker ps content"
        and no: "\<forall>(k, qs) \<in> set before. \<not> any_marker qs content" by blast
      from eq have "(k, qs) # table = ((k, qs) # before) @ (kind, ps) # after" by simp
      moreover from no False have "\<forall>(k, qs) \<in> set ((k, qs) # before). \<not> any_marker qs content"
        by simp
      ultimately show ?L using m by blast
    qed
    with False a Cons.IH show ?thesis by simp
  qed
qed

lemma first_match_earliest:
  assumes "i < length files"
    and "fs (files ! i) = Some content"
    and "first_kind table content = Some kind"
    and "\<forall>j<i. (case fs (files ! j) of None \<Rightarrow> True | Some c \<Rightarrow> first_kind table c = None)"
  shows "first_match table fs files = Some (kind, files ! i)"
  using assms
proof (induction files arbitrary: i)
  case Nil
  then show ?case by simp
next
  case (Cons f rest)
  show ?case
  proof (cases i)
    case 0
    with Cons.prems show ?thesis by simp
  next
    case (Suc k)
    from Cons.prems(4) Suc have f0: "case fs f of None \<Rightarrow> True | Some c \<Rightarrow> first_kind table c = None"
      by (metis nth_Cons_0 zero_less_Suc)
    from Cons.prems(4) Suc
    have rest: "\<forall>j<k. (case fs (rest ! j) of None \<Rightarrow> True | Some c \<Rightarrow> first_kind table c = None)"
      by (metis Suc_less_eq nth_Cons_Suc)
    from Cons.prems Suc have "first_match table fs rest = Some (kind, rest ! k)"
      using Cons.IH [of k] rest by simp
    with f0 Suc show ?thesis by (simp split: option.splits)
  qed
qed

text \<open>
  C9. \<open>_detect_database\<close> goes through the application files and then the configuration
  files. If the file at position \<open>i\<close> of that sequence can be read and has a marker, its
  kind being the first one of the table with a marker in it, and no readable file before
  it has a marker, then the database reported is that kind with that file.
\<close>

theorem detect_database_first_match:
  assumes "i < length (l_app_files (d_lists d) @ l_config_files (d_lists d))"
    and "fs ((l_app_files (d_lists d) @ l_config_files (d_lists d)) ! i) = Some content"
    and "first_kind db_patterns content = Some kind"
    and "\<forall>j<i. (case fs ((l_app_files (d_lists d) @ l_config_files (d_lists d)) ! j) of
                   None \<Rightarrow> True | Some c \<Rightarrow> first_kind db_patterns c = None)"
  shows "s_database (d_structure (detect_database fs d))
           = Some (kind, Some ((l_app_files (d_lists d) @ l_config_files (d_lists d)) ! i))
         \<and> d_db_type (detect_database fs d) = Some kind"
  using first_match_earliest [OF assms] by (simp add: detect_database_def)

lemma two_files_list:
  "l_app_files (d_lists two_files_detector) @ l_config_files (d_lists two_files_detector)
     = [[''srv'', ''shop'', ''app.py''], [''srv'', ''shop'', ''config.py''], [''srv'', ''shop'', ''config.py'']]"
  by (simp add: two_files_detector_def new_detector_def no_files_def)

lemma two_files_kinds:
  "first_kind db_patterns ''from flask import Flask'' = None"
  "first_kind db_patterns ''URI = \"mysql://sqlite://\"'' = Some ''sqlite''"
  by code_simp+

text \<open>
  The example: the first file has no marker; the second one has markers of two kinds, and
  the kind that comes first in the table is reported, with that file.
\<close>

theorem detect_database_first_match_witness:
  "s_database (d_structure (detect_database two_files two_files_detector))
     = Some (''sqlite'', Some [''srv'', ''shop'', ''config.py''])
   \<and> d_db_type (detect_database two_files two_files_detector) = Some ''sqlite''"
proof -
  let ?files = "l_app_files (d_lists two_files_detector) @ l_config_files (d_lists two_files_detector)"
  have a: "1 < length ?files" by (simp add: two_files_list)
  have b: "two_files (?files ! 1) = Some ''URI = \"mysql://sqlite://\"''"
    by (simp add: two_files_list two_files_def)
  have c: "first_kind db_patterns ''URI = \"mysql://sqlite://\"'' = Some ''sqlite''"
    by (rule two_files_kinds)
  have d: "\<forall>j<1. (case two_files (?files ! j) of None \<Rightarrow> True
                    | Some c \<Rightarrow> first_kind db_patterns c = None)"
    by (simp add: two_files_list two_files_def two_files_kinds)
  show ?thesis
    using detect_database_first_match [OF a b c d] by (simp add: two_files_list)
qed

section \<open>A second call of the detector\<close>

text \<open>The scan of the tree appends to the lists that it is given.\<close>

lemma append_sets_sel [simp]:
  "l_app_files (append_sets a b) = l_app_files a @ l_app_files b"
  "l_blueprint_files (append_sets a b) = l_blueprint_files a @ l_blueprint_files b"
  "l_template_dirs (append_sets a b) = l_template_dirs a @ l_template_dirs b"
  "l_static_dirs (append_sets a b) = l_static_dirs a @ l_static_dirs b"
  "l_model_files (append_sets a b) = l_model_files a @ l_model_files b"
  "l_route_files (append_sets a b) = l_route_files a @ l_route_files b"
  "l_config_files (append_sets a b) = l_config_files a @ l_config_files b"
  by (simp_all add: append_sets_def)

lemma append_sets_no_files [simp]: "append_sets l no_files = l" "append_sets no_files l = l"
  by (simp_all add: append_sets_def no_files_def)















end
